theory Spec2Isabelle
  imports Main "HOL-Library.Sublist" "HOL-Library.Multiset"
begin

section \<open>JavaScript strings and values\<close>

text \<open>
  The service is TypeScript. Strings are modelled as \<^typ>\<open>string\<close> (lists of 8-bit
  characters, i.e. the code units below 256); \<open>undefined\<close> is \<^const>\<open>None\<close> of an option
  type; a thrown exception is a value of type \<open>error\<close> carrying its message.
\<close>

datatype error = TypeError string | Error string

text \<open>\<open>error.message\<close>\<close>

fun messageOf :: "error \<Rightarrow> string" where
  "messageOf (TypeError m) = m"
| "messageOf (Error m) = m"

text \<open>\<open>s.split(c)\<close> for a one-character separator: always at least one piece.\<close>

fun split :: "char \<Rightarrow> string \<Rightarrow> string list" where
  "split c [] = [[]]"
| "split c (x # xs) =
     (if x = c then [] # split c xs
      else (case split c xs of [] \<Rightarrow> [[x]] | p # ps \<Rightarrow> (x # p) # ps))"

text \<open>\<open>xs[i]\<close>: out of range is \<open>undefined\<close>.\<close>

definition index :: "'a list \<Rightarrow> nat \<Rightarrow> 'a option" where
  "index xs i = (if i < length xs then Some (xs ! i) else None)"

text \<open>\<open>String.prototype.toLowerCase\<close> on code units below 256: A-Z and the Latin-1
  capitals (0xC0-0xDE except the multiplication sign 0xD7) move up by 32.\<close>

definition lowerChar :: "char \<Rightarrow> char" where
  "lowerChar c =
     (let n = (of_char c :: nat)
      in if (65 \<le> n \<and> n \<le> 90) \<or> (192 \<le> n \<and> n \<le> 214) \<or> (216 \<le> n \<and> n \<le> 222)
         then char_of (n + 32) else c)"

definition toLowerCase :: "string \<Rightarrow> string" where
  "toLowerCase s = map lowerChar s"

text \<open>\<open>startsWith\<close>, \<open>endsWith\<close> and \<open>includes\<close> of \<open>String.prototype\<close> (the last is named
  \<open>includesStr\<close> here).\<close>

fun startsWith :: "string \<Rightarrow> string \<Rightarrow> bool" where
  "startsWith s [] = True"
| "startsWith [] (p # ps) = False"
| "startsWith (x # xs) (p # ps) = (x = p \<and> startsWith xs ps)"

definition endsWith :: "string \<Rightarrow> string \<Rightarrow> bool" where
  "endsWith s p = startsWith (rev s) (rev p)"

fun includesStr :: "string \<Rightarrow> string \<Rightarrow> bool" where
  "includesStr [] p = (p = [])"
| "includesStr (x # xs) p = (startsWith (x # xs) p \<or> includesStr xs p)"

text \<open>\<open>Array.prototype.some\<close> and \<open>Array.prototype.includes\<close> (on an array of
  possibly-undefined strings, compared with a possibly-undefined string).\<close>

definition some :: "'a list \<Rightarrow> ('a \<Rightarrow> bool) \<Rightarrow> bool" where
  "some xs P = list_ex P xs"

definition arrayIncludes :: "string list \<Rightarrow> string option \<Rightarrow> bool" where
  "arrayIncludes xs v = (v \<in> set (map Some xs))"

text \<open>\<open>String.prototype.trim\<close>: the white space and line terminators below 256.\<close>

definition isWhiteSpace :: "char \<Rightarrow> bool" where
  "isWhiteSpace c = ((of_char c :: nat) \<in> {9, 10, 11, 12, 13, 32, 160})"

definition trim :: "string \<Rightarrow> string" where
  "trim s = rev (dropWhile isWhiteSpace (rev (dropWhile isWhiteSpace s)))"

definition CRLF :: string where
  "CRLF = [CHR 0x0D, CHR 0x0A]"

text \<open>A template literal prints \<open>undefined\<close> for an undefined value.\<close>

fun interpolate :: "string option \<Rightarrow> string" where
  "interpolate None = ''undefined''"
| "interpolate (Some s) = s"

section \<open>Domain classifier\<close>

definition roleKeywords :: "string list" where
  "roleKeywords = [
    ''admin'', ''administrator'', ''support'', ''info'', ''help'', ''service'', ''contact'',
    ''team'', ''sales'', ''marketing'', ''hr'', ''billing'', ''security'', ''noreply'',
    ''no-reply'', ''webmaster'', ''postmaster'', ''hostmaster'', ''office'', ''careers'',
    ''jobs'', ''recruitment'', ''it'', ''tech'', ''feedback'', ''enquiries'', ''inquiries'',
    ''helpdesk'', ''support'', ''services'', ''orders'', ''shipping'', ''accounts'',
    ''accounting'', ''finance'', ''payroll'', ''purchasing'', ''legal'', ''media'', ''press'',
    ''news'', ''newsletter'', ''subscriptions'', ''unsubscribe'', ''abuse'', ''spam'',
    ''compliance'', ''privacy'', ''careers'', ''development'', ''dev'', ''operations'', ''ops'',
    ''research'', ''partners'', ''partnership'', ''reception'', ''supply'', ''logistics'',
    ''warehouse'', ''customercare'', ''customersupport'', ''customerservice'', ''complaints'',
    ''returns'', ''quality'', ''training'', ''facilities'', ''maintenance'', ''events'',
    ''social'', ''digital'', ''online'', ''website'', ''web'', ''analytics'', ''data'',
    ''systems'', ''network'', ''infrastructure'', ''project'', ''projects'', ''procurement'',
    ''vendor'', ''suppliers'', ''corporate'', ''enterprise'', ''business'', ''community'',
    ''public'', ''external'', ''internal'', ''global'', ''local'', ''regional'', ''group'',
    ''department'', ''staff'', ''employee'', ''personnel'', ''talent'', ''benefits'',
    ''compensation'', ''relations'', ''success'', ''experience'', ''engagement'', ''brand'',
    ''creative'', ''assistance'', ''aide'', ''bureau'', ''comptabilite'', ''direction'',
    ''secretariat'', ''accueil'', ''commercial'', ''ventes'', ''equipe'', ''service-client'',
    ''contact'', ''information'', ''administration'', ''gestion'', ''rh'', ''facturation'',
    ''securite'', ''ne-pas-repondre'', ''communication'', ''recrutement'', ''emplois'',
    ''carrieres'', ''technique'', ''informatique'', ''commandes'', ''expeditions'',
    ''livraison'', ''finances'', ''paie'', ''achats'', ''juridique'', ''presse'',
    ''actualites'', ''newsletter'', ''desabonnement'', ''abonnements'', ''conformite'',
    ''confidentialite'', ''developpement'', ''partenariats'', ''recherche'', ''formation'',
    ''stage'', ''stages'', ''logistique'', ''entrepot'', ''qualite'', ''evenements'',
    ''maintenance'', ''systemes'', ''projets'', ''approvisionnement'', ''fournisseurs'',
    ''entreprise'', ''communaute'', ''personnel'', ''avantages'', ''experience-client'',
    ''engagement'', ''marque'', ''creation'', ''social'', ''commanditaire'', ''departement'',
    ''groupe'', ''succursale'', ''siege'', ''exploitation'', ''production'', ''atelier'',
    ''ressources'', ''talents'', ''apprentissage'', ''conseil'', ''consultation'',
    ''innovation'', ''info-fr'', ''info-en'', ''info-uk'', ''info-us'', ''support-fr'',
    ''support-en'', ''help-fr'', ''help-en'', ''reservations'', ''bookings'', ''tickets'',
    ''sales'', ''academic'', ''faculty'', ''admissions'', ''alumni'', ''donations'',
    ''fundraising'', ''grants'', ''sponsors'', ''editorial'', ''submissions'', ''studios'',
    ''production''
  ]"

definition freeEmailProviders :: "string list" where
  "freeEmailProviders =
     [''gmail.com'', ''yahoo.com'', ''outlook.com'', ''hotmail.com'', ''icloud.com'',
      ''mail.com'', ''aol.com'', ''zoho.com'']"

definition undefinedRead :: "string \<Rightarrow> error" where
  "undefinedRead prop =
     TypeError (''Cannot read properties of undefined (reading '' @ [CHR 39] @ prop @ [CHR 39] @ '')'')"

text \<open>\<open>checkFreeOrPaid\<close>: the domain is the second piece of the address; reading
  \<open>toLowerCase\<close> of \<open>undefined\<close> throws.\<close>

datatype free = Free | Paid

definition checkFreeOrPaid :: "string \<Rightarrow> error + free" where
  "checkFreeOrPaid email =
     (case index (split CHR ''@'' email) 1 of
        None \<Rightarrow> Inl (undefinedRead ''toLowerCase'')
      | Some d \<Rightarrow>
          (let domain = toLowerCase d
           in if arrayIncludes freeEmailProviders (Some domain) then Inr Free
              else Inr Paid))"

text \<open>The predicate that \<open>isRoleEmail\<close> passes to \<open>some\<close>.\<close>

definition roleMatch :: "string \<Rightarrow> string \<Rightarrow> bool" where
  "roleMatch localPart keyword =
     (localPart = keyword \<or>
      startsWith localPart (keyword @ ''.'') \<or>
      endsWith localPart (''.'' @ keyword) \<or>
      includesStr localPart (''.'' @ keyword @ ''.'') \<or>
      includesStr localPart (''-'' @ keyword) \<or>
      includesStr localPart (keyword @ ''-'') \<or>
      includesStr localPart (''_'' @ keyword) \<or>
      includesStr localPart (keyword @ ''_''))"

definition isRoleEmail :: "string \<Rightarrow> error + bool" where
  "isRoleEmail email =
     (case index (split CHR ''@'' email) 0 of
        None \<Rightarrow> Inl (undefinedRead ''toLowerCase'')
      | Some u \<Rightarrow>
          (let localPart = toLowerCase u
           in Inr (some roleKeywords (roleMatch localPart))))"

text \<open>\<open>isBlacklisted\<close>: the list of disposable domains (\<open>lib/blacklist.json\<close>, an array
  of strings) is a parameter.\<close>

definition isBlacklisted :: "string list \<Rightarrow> string \<Rightarrow> bool" where
  "isBlacklisted blacklist email =
     (let domain = index (split CHR ''@'' email) 1
      in arrayIncludes blacklist domain)"

section \<open>Data model\<close>

record MxRecord =
  exchange :: string
  priority :: int

record DnsVerificationResult =
  hasMxRecord :: bool
  hasSPF :: bool
  hasDMARC :: bool
  mxRecords :: "MxRecord list"
  spfRecord :: "string option"
  dmarcRecord :: "string option"
  errors :: "string list"

record SmtpVerificationResult =
  success :: bool
  exists :: bool
  message :: string

datatype state = Deliverable | Undeliverable | Risky

datatype role = Yes | No

text \<open>The request bodies of \<open>verify-one\<close> and \<open>verify-many\<close>. The DTO classes are not
  among the sources; the fields are those the service reads: the requesting user's
  address, the address or addresses to check, the name of the list.\<close>

record VerifyOneDto =
  email :: string
  check :: string

record VerifyManyDto =
  email :: string
  emails :: "string list"
  name :: string

text \<open>The \<open>Emails\<close> document as \<open>verifyOneEmail\<close> hands it to the collaborator and
  returns it (\<open>listId\<close> is removed from the returned object by the destructuring;
  \<open>_id\<close> and \<open>__v\<close>, added by the store, are left out). The field \<open>mxRecords\<close> of the
  schema is \<open>mxHosts\<close> here, the name being taken by the DNS result.\<close>

record Emails =
  email :: string
  score :: int
  state :: state
  free :: free
  role :: role
  disposable :: bool
  mxHosts :: "string list"
  SmtpProvider :: string
  time :: nat

text \<open>A promise that has been awaited: it settled with a value, or it never does.\<close>

datatype 'a promise = Pending | Resolved 'a

section \<open>The outside world\<close>

text \<open>
  Everything the service gets from outside is read from an oracle indexed by a clock that
  advances by one at each external call, so that two calls with the same arguments may
  get different answers: the two DNS lookups (which reject with an error or deliver
  records), the events the TLS socket emits after \<open>tls.connect\<close>, the events of the plain
  socket of \<open>smtpHandshake\<close>, and whether \<open>emailsModel.create\<close> rejects.
  The list of disposable domains is fixed data.
\<close>

datatype socketEvent = OnConnect | OnTimeout | OnData string | OnError error

record world =
  resolveMx :: "nat \<Rightarrow> string option \<Rightarrow> error + MxRecord list"
  resolveTxt :: "nat \<Rightarrow> string option \<Rightarrow> error + string list list"
  tlsEvents :: "nat \<Rightarrow> socketEvent list"
  netEvents :: "nat \<Rightarrow> string \<Rightarrow> socketEvent list"
  createRejects :: "nat \<Rightarrow> Emails \<Rightarrow> error option"
  blacklist :: "string list"

text \<open>What the service does to the outside, in order.\<close>

datatype event =
    ResolveMx "string option"
  | ResolveTxt "string option"
  | Connect string nat
  | Write string
  | End
  | Destroy
  | ClearTimeout
  | Resolve SmtpVerificationResult
  | Create Emails
  | LoggerError string
  | Sleep nat

section \<open>DNS resolver\<close>

text \<open>\<open>!!v\<close> for an optional string: \<open>undefined\<close> and the empty string are falsy.\<close>

fun truthy :: "string option \<Rightarrow> bool" where
  "truthy None = False"
| "truthy (Some s) = (s \<noteq> [])"

definition lookupMx :: "error + MxRecord list \<Rightarrow> DnsVerificationResult \<Rightarrow> DnsVerificationResult" where
  "lookupMx answer result =
     (case answer of
        Inr mxs \<Rightarrow> result\<lparr>hasMxRecord := 0 < length mxs, mxRecords := mxs\<rparr>
      | Inl error \<Rightarrow> result\<lparr>errors := errors result @ [''MX lookup failed: '' @ messageOf error]\<rparr>)"

definition lookupSpf :: "error + string list list \<Rightarrow> DnsVerificationResult \<Rightarrow> DnsVerificationResult" where
  "lookupSpf answer result =
     (case answer of
        Inr txtRecords \<Rightarrow>
          (let spf = find (\<lambda>record. startsWith record ''v=spf1'') (concat txtRecords);
               result = result\<lparr>hasSPF := truthy spf\<rparr>
           in if truthy spf then result\<lparr>spfRecord := spf\<rparr> else result)
      | Inl error \<Rightarrow> result\<lparr>errors := errors result @ [''SPF lookup failed: '' @ messageOf error]\<rparr>)"

definition lookupDmarc :: "error + string list list \<Rightarrow> DnsVerificationResult \<Rightarrow> DnsVerificationResult" where
  "lookupDmarc answer result =
     (case answer of
        Inr dmarcRecords \<Rightarrow>
          (let dmarc = find (\<lambda>record. startsWith record ''v=DMARC1'') (concat dmarcRecords);
               result = result\<lparr>hasDMARC := truthy dmarc\<rparr>
           in if truthy dmarc then result\<lparr>dmarcRecord := dmarc\<rparr> else result)
      | Inl error \<Rightarrow> result\<lparr>errors := errors result @ [''DMARC lookup failed: '' @ messageOf error]\<rparr>)"

text \<open>\<open>verifyEmailDns\<close>: three lookups, each in its own \<open>try\<close>/\<open>catch\<close>. Returns what it
  did, the clock afterwards and the result. (From here on the parameter \<open>email\<close> of the
  source is called \<open>address\<close>, \<open>email\<close> being a field of the records above.)\<close>

definition verifyEmailDns :: "world \<Rightarrow> nat \<Rightarrow> string \<Rightarrow> event list \<times> nat \<times> DnsVerificationResult" where
  "verifyEmailDns w clock address =
     (let domain = index (split CHR ''@'' address) 1;
          dmarcDomain = Some (''_dmarc.'' @ interpolate domain);
          result = \<lparr>hasMxRecord = False, hasSPF = False, hasDMARC = False, mxRecords = [],
                    spfRecord = None, dmarcRecord = None, errors = []\<rparr>;
          result = lookupMx (resolveMx w clock domain) result;
          result = lookupSpf (resolveTxt w (clock + 1) domain) result;
          result = lookupDmarc (resolveTxt w (clock + 2) dmarcDomain) result
      in ([ResolveMx domain, ResolveTxt domain, ResolveTxt dmarcDomain], clock + 3, result))"

text \<open>\<open>extractMxRecords\<close>: the exchange names and the provider they point to.\<close>

definition extractMxRecords :: "MxRecord list \<Rightarrow> string list \<times> string" where
  "extractMxRecords mxRecordss =
     (let mxs = map exchange mxRecordss;
          provider =
            (if some mxs (\<lambda>exchange. includesStr exchange ''google.com'') then ''Google''
             else if some mxs (\<lambda>exchange. includesStr exchange ''outlook.com'' \<or>
                                            includesStr exchange ''protection.outlook.com'')
               then ''Microsoft''
             else if some mxs (\<lambda>exchange. includesStr exchange ''yahoodns.net'') then ''Yahoo''
             else if some mxs (\<lambda>exchange. includesStr exchange ''cloudflare.net'')
               then ''CloudflareEmailRouting''
             else ''Unknown'')
      in (mxs, provider))"

section \<open>SMTP prober\<close>

text \<open>The state of one call of \<open>verifyEmail\<close>: the closure variables \<open>buffer\<close> and
  \<open>step\<close>, whether the timer of \<open>setTimeout\<close> is still armed, whether the socket has been
  destroyed, the promise, and what has been done so far.\<close>

record connection =
  buffer :: string
  step :: nat
  timeoutId :: bool
  destroyed :: bool
  settled :: "SmtpVerificationResult promise"
  did :: "event list"

text \<open>Resolving a promise twice leaves the first value.\<close>

definition resolve :: "SmtpVerificationResult \<Rightarrow> connection \<Rightarrow> connection" where
  "resolve v c =
     c\<lparr>settled := (case settled c of Pending \<Rightarrow> Resolved v | Resolved r \<Rightarrow> Resolved r),
       did := did c @ [Resolve v]\<rparr>"

definition socketWrite :: "string \<Rightarrow> connection \<Rightarrow> connection" where
  "socketWrite s c = c\<lparr>did := did c @ [Write s]\<rparr>"

definition socketDestroy :: "connection \<Rightarrow> connection" where
  "socketDestroy c = c\<lparr>destroyed := True, did := did c @ [Destroy]\<rparr>"

definition clearTimeout :: "connection \<Rightarrow> connection" where
  "clearTimeout c = c\<lparr>timeoutId := False, did := did c @ [ClearTimeout]\<rparr>"

definition closeConnection :: "bool \<Rightarrow> string \<Rightarrow> connection \<Rightarrow> connection" where
  "closeConnection ex msg c =
     resolve \<lparr>success = True, exists = ex, message = msg\<rparr>
       (socketDestroy (socketWrite (''QUIT'' @ CRLF) (clearTimeout c)))"

text \<open>The callback of \<open>setTimeout\<close>.\<close>

definition onTimer :: "connection \<Rightarrow> connection" where
  "onTimer c =
     resolve \<lparr>success = False, exists = False, message = ''Connection timeout''\<rparr>
       (socketDestroy c)"

text \<open>The handler of \<open>data\<close>.\<close>

definition onData :: "string \<Rightarrow> string option \<Rightarrow> string \<Rightarrow> connection \<Rightarrow> connection" where
  "onData address domain data c =
     (let c = c\<lparr>buffer := buffer c @ data\<rparr>
      in if includesStr (buffer c) CRLF then
           (let response = trim (buffer c);
                c = c\<lparr>buffer := []\<rparr>
            in if step c = 0 then
                 (if startsWith response ''2''
                  then (socketWrite (''EHLO '' @ interpolate domain @ CRLF) c)\<lparr>step := step c + 1\<rparr>
                  else closeConnection False ''Server not ready'' c)
               else if step c = 1 then
                 (if startsWith response ''2''
                  then (socketWrite (''STARTTLS'' @ CRLF) c)\<lparr>step := step c + 1\<rparr>
                  else closeConnection False ''EHLO failed'' c)
               else if step c = 2 then
                 (if startsWith response ''2''
                  then (socketWrite (''MAIL FROM:<verify@'' @ interpolate domain @ ''>'' @ CRLF) c)
                         \<lparr>step := step c + 1\<rparr>
                  else closeConnection False ''STARTTLS failed'' c)
               else if step c = 3 then
                 (if startsWith response ''2''
                  then (socketWrite (''RCPT TO:<'' @ address @ ''>'' @ CRLF) c)\<lparr>step := step c + 1\<rparr>
                  else closeConnection False ''MAIL FROM failed'' c)
               else if step c = 4 then
                 (if startsWith response ''250'' then closeConnection True ''Email exists'' c
                  else if includesStr response ''blocked'' \<or>
                          includesStr response ''Service unavailable''
                    then closeConnection False ''Verification failed: Server blocked our request'' c
                  else if startsWith response ''550''
                    then closeConnection False ''Email does not exist'' c
                  else closeConnection False ''Unexpected response'' c)
               else c)
         else c)"

text \<open>One event of the socket. The handlers of \<open>connect\<close> and \<open>timeout\<close> only print; a
  destroyed socket emits nothing more.\<close>

definition deliver :: "string \<Rightarrow> string option \<Rightarrow> connection \<Rightarrow> socketEvent \<Rightarrow> connection" where
  "deliver address domain c ev =
     (if destroyed c then c
      else case ev of
             OnConnect \<Rightarrow> c
           | OnTimeout \<Rightarrow> c
           | OnData data \<Rightarrow> onData address domain data c
           | OnError err \<Rightarrow> closeConnection False (''Connection error: '' @ messageOf err) c)"

text \<open>The timer fires once the events the world delivers in time have been handled,
  unless \<open>clearTimeout\<close> has disarmed it.\<close>

definition expire :: "connection \<Rightarrow> connection" where
  "expire c = (if timeoutId c then onTimer c else c)"

definition tlsConnect :: "string \<Rightarrow> nat \<Rightarrow> connection" where
  "tlsConnect host port =
     \<lparr>buffer = [], step = 0, timeoutId = True, destroyed = False, settled = Pending,
      did = [Connect host port]\<rparr>"

definition verifyEmail ::
  "world \<Rightarrow> nat \<Rightarrow> string \<Rightarrow> DnsVerificationResult \<Rightarrow>
     event list \<times> nat \<times> SmtpVerificationResult promise" where
  "verifyEmail w clock address dnsResult =
     (if \<not> hasMxRecord dnsResult \<or> length (mxRecords dnsResult) = 0
      then ([], clock,
            Resolved \<lparr>success = False, exists = False,
                      message = ''No MX records found for domain''\<rparr>)
      else
        (let domain = index (split CHR ''@'' address) 1;
             socket = tlsConnect ''smtp.office365.com'' 587;
             socket = expire (foldl (deliver address domain) socket (tlsEvents w clock))
         in (did socket, clock + 1, settled socket)))"

section \<open>Verification orchestrator\<close>

text \<open>\<open>getInfoEmail\<close>: throws what \<open>checkFreeOrPaid\<close> throws; resolves the DNS once more
  and drops the answer.\<close>

definition getInfoEmail ::
  "world \<Rightarrow> nat \<Rightarrow> string \<Rightarrow> MxRecord list \<Rightarrow>
     event list \<times> nat \<times> (error + free \<times> role \<times> string list \<times> string \<times> bool)" where
  "getInfoEmail w clock address records =
     (case checkFreeOrPaid address of
        Inl err \<Rightarrow> ([], clock, Inl err)
      | Inr fr \<Rightarrow>
          (case isRoleEmail address of
             Inl err \<Rightarrow> ([], clock, Inl err)
           | Inr isRole \<Rightarrow>
               (let (t, clock, dns) = verifyEmailDns w clock address;
                    (mxs, provider) = extractMxRecords records;
                    disp = isBlacklisted (blacklist w) address
                in (t, clock, Inr (fr, if isRole then Yes else No, mxs, provider, disp)))))"

text \<open>\<open>emailsModel.create(doc)\<close> followed by \<open>res.toObject()\<close> without \<open>listId\<close>: rejects, or
  gives back the document.\<close>

definition emailsModelCreate :: "world \<Rightarrow> nat \<Rightarrow> Emails \<Rightarrow> event list \<times> nat \<times> (error + Emails)" where
  "emailsModelCreate w clock doc =
     ([Create doc], clock + 1,
      (case createRejects w clock doc of Some err \<Rightarrow> Inl err | None \<Rightarrow> Inr doc))"

text \<open>The tail of both branches of \<open>verifyOneEmail\<close>: store the document and return it;
  a rejection lands in the \<open>catch\<close> of \<open>verifyOneEmail\<close>, which logs the message and
  returns nothing (\<open>undefined\<close>).\<close>

definition createAndReturn ::
  "world \<Rightarrow> nat \<Rightarrow> event list \<Rightarrow> Emails \<Rightarrow> event list \<times> nat \<times> Emails option promise" where
  "createAndReturn w clock prior doc =
     (case emailsModelCreate w clock doc of
        (t, clock, Inl err) \<Rightarrow> (prior @ t @ [LoggerError (messageOf err)], clock, Resolved None)
      | (t, clock, Inr res) \<Rightarrow> (prior @ t, clock, Resolved (Some res)))"

definition verifyOneEmail ::
  "world \<Rightarrow> nat \<Rightarrow> VerifyOneDto \<Rightarrow> event list \<times> nat \<times> Emails option promise" where
  "verifyOneEmail w clock data =
     (let (t1, clock, dns) = verifyEmailDns w clock (check data)
      in case getInfoEmail w clock (check data) (mxRecords dns) of
           (t2, clock, Inl err) \<Rightarrow>
             (t1 @ t2 @ [LoggerError (messageOf err)], clock, Resolved None)
         | (t2, clock, Inr (fr, rl, mxs, provider, disp)) \<Rightarrow>
             if disp then
               createAndReturn w clock (t1 @ t2)
                 \<lparr>email = check data, score = 5, state = Risky, free = fr, role = rl,
                  disposable = disp, mxHosts = mxs, SmtpProvider = provider, time = clock\<rparr>
             else
               (case verifyEmail w clock (check data) dns of
                  (t3, clock, Pending) \<Rightarrow> (t1 @ t2 @ t3, clock, Pending)
                | (t3, clock, Resolved smtp) \<Rightarrow>
                    (let (sc, st) = (if exists smtp then (99, Deliverable) else (0, Undeliverable))
                     in createAndReturn w clock (t1 @ t2 @ t3)
                          \<lparr>email = check data, score = sc, state = st, free = fr, role = rl,
                           disposable = disp, mxHosts = mxs, SmtpProvider = provider,
                           time = clock\<rparr>)))"

text \<open>The loop of \<open>verifyManyEmail\<close> (everything after its first \<open>return\<close> is dead code).\<close>

fun verifyManyLoop ::
  "world \<Rightarrow> nat \<Rightarrow> string \<Rightarrow> string list \<Rightarrow> Emails option list \<Rightarrow>
     event list \<times> nat \<times> Emails option list promise" where
  "verifyManyLoop w clock user [] dataa = ([], clock, Resolved dataa)"
| "verifyManyLoop w clock user (e # es) dataa =
     (case verifyOneEmail w clock \<lparr>VerifyOneDto.email = user, check = e\<rparr> of
        (t, clock, Pending) \<Rightarrow> (t, clock, Pending)
      | (t, clock, Resolved res) \<Rightarrow>
          (let (t', clock, out) = verifyManyLoop w clock user es (dataa @ [res])
           in (t @ [Sleep 2000] @ t', clock, out)))"

definition verifyManyEmail ::
  "world \<Rightarrow> nat \<Rightarrow> VerifyManyDto \<Rightarrow> event list \<times> nat \<times> Emails option list promise" where
  "verifyManyEmail w clock data = verifyManyLoop w clock (VerifyManyDto.email data) (emails data) []"

section \<open>The unused probe over the resolved mail exchanges\<close>

text \<open>\<open>smtpHandshake\<close>: a plain socket to port 25 of one exchange, no overall timer. The
  promise resolves with a boolean, is rejected with an error (\<open>Inl\<close>), or stays pending.
  After \<open>socket.end()\<close> the socket may still deliver data; after \<open>destroy\<close> it does not.\<close>

record handshake =
  handshakeState :: nat
  closed :: bool
  outcome :: "(error + bool) promise"
  acts :: "event list"

definition settle :: "error + bool \<Rightarrow> handshake \<Rightarrow> handshake" where
  "settle v h =
     h\<lparr>outcome := (case outcome h of Pending \<Rightarrow> Resolved v | Resolved r \<Rightarrow> Resolved r)\<rparr>"

definition act :: "event \<Rightarrow> handshake \<Rightarrow> handshake" where
  "act e h = h\<lparr>acts := acts h @ [e]\<rparr>"

definition handshakeData :: "string \<Rightarrow> string \<Rightarrow> string \<Rightarrow> handshake \<Rightarrow> handshake" where
  "handshakeData user domain data h =
     (if handshakeState h = 0 then
        (if includesStr data ''220''
         then (act (Write (''EHLO '' @ domain @ CRLF)) h)\<lparr>handshakeState := handshakeState h + 1\<rparr>
         else h)
      else if handshakeState h = 1 then
        (if includesStr data ''250''
         then (act (Write (''MAIL FROM:<mhaddaou@'' @ domain @ ''>'' @ CRLF)) h)
                \<lparr>handshakeState := handshakeState h + 1\<rparr>
         else h)
      else if handshakeState h = 2 then
        (if includesStr data ''250''
         then (act (Write (''RCPT TO:<'' @ user @ ''@'' @ domain @ ''>'' @ CRLF)) h)
                \<lparr>handshakeState := handshakeState h + 1\<rparr>
         else h)
      else if handshakeState h = 3 then
        (if includesStr data ''250'' then settle (Inr True) (act End h)
         else if includesStr data ''550'' then settle (Inr False) (act End h)
         else h)
      else h)"

definition handshakeEvent :: "string \<Rightarrow> string \<Rightarrow> handshake \<Rightarrow> socketEvent \<Rightarrow> handshake" where
  "handshakeEvent user domain h ev =
     (if closed h then h
      else case ev of
             OnConnect \<Rightarrow> h
           | OnData data \<Rightarrow> handshakeData user domain data h
           | OnError err \<Rightarrow> settle (Inl err) ((act Destroy h)\<lparr>closed := True\<rparr>)
           | OnTimeout \<Rightarrow> settle (Inl (Error ''Timeout'')) ((act Destroy h)\<lparr>closed := True\<rparr>))"

definition smtpHandshake ::
  "world \<Rightarrow> nat \<Rightarrow> string \<Rightarrow> string \<Rightarrow> string \<Rightarrow> event list \<times> nat \<times> (error + bool) promise" where
  "smtpHandshake w clock smtpServer user domain =
     (let socket = \<lparr>handshakeState = 0, closed = False, outcome = Pending,
                     acts = [Connect smtpServer 25]\<rparr>;
          socket = foldl (handshakeEvent user domain) socket (netEvents w clock smtpServer)
      in (acts socket, clock + 1, outcome socket))"

text \<open>The loop of \<open>verifyEmailWithDnsResult\<close> over the sorted records: the first exchange
  whose handshake resolves with \<open>true\<close> ends it; \<open>false\<close> or a rejection moves on.\<close>

fun tryExchanges ::
  "world \<Rightarrow> nat \<Rightarrow> MxRecord list \<Rightarrow> string \<Rightarrow> string \<Rightarrow> event list \<times> nat \<times> bool promise" where
  "tryExchanges w clock [] user domain = ([], clock, Resolved False)"
| "tryExchanges w clock (mxRecord # rest) user domain =
     (case smtpHandshake w clock (exchange mxRecord) user domain of
        (t, clock, Pending) \<Rightarrow> (t, clock, Pending)
      | (t, clock, Resolved (Inr True)) \<Rightarrow> (t, clock, Resolved True)
      | (t, clock, Resolved _) \<Rightarrow>
          (let (t', clock, r) = tryExchanges w clock rest user domain
           in (t @ t', clock, r)))"

text \<open>\<open>verifyEmailWithDnsResult\<close>. \<open>Array.prototype.sort\<close> with the comparator
  \<open>a.priority - b.priority\<close> is a stable sort by priority (it also reorders the array of
  the argument in place, which nothing reads afterwards). An array is never falsy, so
  \<open>!dnsResult.mxRecords\<close> is false and drops out of the second test.\<close>

definition verifyEmailWithDnsResult ::
  "world \<Rightarrow> nat \<Rightarrow> string \<Rightarrow> DnsVerificationResult \<Rightarrow> event list \<times> nat \<times> bool promise" where
  "verifyEmailWithDnsResult w clock address dnsResult =
     (let user = index (split CHR ''@'' address) 0;
          domain = index (split CHR ''@'' address) 1
      in if \<not> truthy user \<or> \<not> truthy domain then ([], clock, Resolved False)
         else if \<not> hasMxRecord dnsResult \<or> length (mxRecords dnsResult) = 0
           then ([], clock, Resolved False)
         else
           (let sortedMxRecords = sort_key priority (mxRecords dnsResult)
            in tryExchanges w clock sortedMxRecords (interpolate user) (interpolate domain)))"

section \<open>Observations on what was done\<close>

text \<open>The connections opened, the lines written, the values a promise was resolved with
  and the sleeps, in order.\<close>

fun connects :: "event list \<Rightarrow> (string \<times> nat) list" where
  "connects [] = []"
| "connects (Connect host port # es) = (host, port) # connects es"
| "connects (e # es) = connects es"

fun writes :: "event list \<Rightarrow> string list" where
  "writes [] = []"
| "writes (Write s # es) = s # writes es"
| "writes (e # es) = writes es"

fun resolves :: "event list \<Rightarrow> SmtpVerificationResult list" where
  "resolves [] = []"
| "resolves (Resolve v # es) = v # resolves es"
| "resolves (e # es) = resolves es"

text \<open>The documents handed to the store, in order.\<close>

fun creates :: "event list \<Rightarrow> Emails list" where
  "creates [] = []"
| "creates (Create doc # es) = doc # creates es"
| "creates (e # es) = creates es"

text \<open>The two ways a call of \<open>verifyEmail\<close> that opened a connection can end: through
  \<open>closeConnection\<close>, or through the timer.\<close>

definition timeoutResult :: SmtpVerificationResult where
  "timeoutResult = \<lparr>success = False, exists = False, message = ''Connection timeout''\<rparr>"

definition closedBy :: "string list \<Rightarrow> SmtpVerificationResult \<Rightarrow> event list" where
  "closedBy ws r =
     Connect ''smtp.office365.com'' 587 # map Write ws @
       [ClearTimeout, Write (''QUIT'' @ CRLF), Destroy, Resolve r]"

definition timedOut :: "string list \<Rightarrow> event list" where
  "timedOut ws =
     Connect ''smtp.office365.com'' 587 # map Write ws @ [Destroy, Resolve timeoutResult]"

text \<open>The four commands of a probe of the address \<open>a\<close>, in the order they are sent.\<close>

definition commands :: "string \<Rightarrow> string list" where
  "commands a =
     (let domain = interpolate (index (split CHR ''@'' a) 1)
      in [''EHLO '' @ domain @ CRLF, ''STARTTLS'' @ CRLF,
          ''MAIL FROM:<verify@'' @ domain @ ''>'' @ CRLF, ''RCPT TO:<'' @ a @ ''>'' @ CRLF])"

text \<open>The state of a probe after \<open>n\<close> commands: still waiting for the server, or closed by
  \<open>closeConnection\<close>.\<close>

definition probing :: "string \<Rightarrow> nat \<Rightarrow> connection \<Rightarrow> bool" where
  "probing a n c =
     (settled c = Pending \<and> timeoutId c \<and> \<not> destroyed c \<and> step c = n \<and> n \<le> 4 \<and>
      did c = Connect ''smtp.office365.com'' 587 # map Write (take n (commands a)))"

definition finished :: "string \<Rightarrow> nat \<Rightarrow> SmtpVerificationResult \<Rightarrow> connection \<Rightarrow> bool" where
  "finished a n r c =
     (settled c = Resolved r \<and> \<not> timeoutId c \<and> destroyed c \<and> success r \<and> n \<le> 4 \<and>
      did c = closedBy (take n (commands a)) r)"

text \<open>The three lookups of \<open>verifyEmailDns\<close>.\<close>

definition dnsEvents :: "string \<Rightarrow> event list" where
  "dnsEvents a =
     (let domain = index (split CHR ''@'' a) 1
      in [ResolveMx domain, ResolveTxt domain, ResolveTxt (Some (''_dmarc.'' @ interpolate domain))])"

text \<open>The request \<open>verifyManyEmail\<close> makes for one target, what a sequence of such
  requests, each at its own time and each followed by its sleep of 2000 ms, does, and
  what it means that an entry of the result answers a request: it is what
  \<open>verifyOneEmail\<close> returned for it, and if it is a record, its address is the target.\<close>

definition request :: "string \<Rightarrow> string \<Rightarrow> VerifyOneDto" where
  "request user e = \<lparr>VerifyOneDto.email = user, check = e\<rparr>"

definition rounds :: "world \<Rightarrow> string \<Rightarrow> (nat \<times> string) list \<Rightarrow> event list" where
  "rounds w user kes =
     concat (map (\<lambda>(k, e). fst (verifyOneEmail w k (request user e)) @ [Sleep 2000]) kes)"

definition answers :: "world \<Rightarrow> string \<Rightarrow> (nat \<times> string) \<Rightarrow> Emails option \<Rightarrow> bool" where
  "answers w user ke out =
     (snd (snd (verifyOneEmail w (fst ke) (request user (snd ke)))) = Resolved out \<and>
      (\<forall>r. out = Some r \<longrightarrow> email r = snd ke))"

section \<open>The role-mailbox rule as the specification words it\<close>

text \<open>A local part is a role mailbox when, lower-cased, it equals a keyword, starts with
  the keyword and a dot, ends with a dot and the keyword, contains the keyword between two
  dots, or contains the keyword with a hyphen or an underscore directly before or after.\<close>

definition isRoleMailbox :: "string \<Rightarrow> bool" where
  "isRoleMailbox localPart =
     (let l = toLowerCase localPart
      in \<exists>keyword \<in> set roleKeywords.
           l = keyword \<or> prefix (keyword @ ''.'') l \<or> suffix (''.'' @ keyword) l \<or>
           sublist (''.'' @ keyword @ ''.'') l \<or>
           sublist (''-'' @ keyword) l \<or> sublist (keyword @ ''-'') l \<or>
           sublist (''_'' @ keyword) l \<or> sublist (keyword @ ''_'') l)"

section \<open>Concrete worlds\<close>

text \<open>A server that sends the given response lines: each line arrives as one \<open>data\<close>
  event, terminated by CRLF as SMTP response lines are.\<close>

definition scripted :: "string list \<Rightarrow> socketEvent list" where
  "scripted ls = map (\<lambda>l. OnData (l @ CRLF)) ls"

text \<open>A domain with two exchanges, delivered with the less preferred one first; no TXT
  records; a server that accepts the recipient; a store that accepts every document.\<close>

definition exampleWorld :: world where
  "exampleWorld =
     \<lparr>resolveMx = (\<lambda>k d. Inr [\<lparr>exchange = ''mx2.example.org'', priority = 20\<rparr>,
                              \<lparr>exchange = ''mx1.example.org'', priority = 10\<rparr>]),
      resolveTxt = (\<lambda>k d. Inl (Error ''queryTxt ENODATA'')),
      tlsEvents = (\<lambda>k. scripted [''220 ok'', ''250 ehlo-ok'', ''250 starttls-ok'',
                                  ''250 mail-ok'', ''250 rcpt-ok'']),
      netEvents = (\<lambda>k h. scripted [''220 ok'', ''250 ehlo-ok'', ''250 mail-ok'', ''250 rcpt-ok'']),
      createRejects = (\<lambda>k doc. None),
      blacklist = [''mailinator.com'']\<rparr>"

text \<open>The same with a store that rejects every document (the address is already stored,
  and the schema makes it unique).\<close>

definition rejectingWorld :: world where
  "rejectingWorld =
     exampleWorld\<lparr>createRejects := (\<lambda>k doc. Some (Error ''E11000 duplicate key error''))\<rparr>"

text \<open>The same with a store that already holds \<open>bob@example.org\<close> and rejects a second
  document for it, and accepts every other.\<close>

definition duplicateWorld :: world where
  "duplicateWorld =
     exampleWorld\<lparr>createRejects :=
       (\<lambda>k doc. if email doc = ''bob@example.org''
                then Some (Error ''E11000 duplicate key error'') else None)\<rparr>"

text \<open>The same with a server that never answers.\<close>

definition silentWorld :: world where
  "silentWorld = exampleWorld\<lparr>tlsEvents := (\<lambda>k. [])\<rparr>"

text \<open>The same with a server that does not know the recipient.\<close>

definition unknownUserWorld :: world where
  "unknownUserWorld =
     exampleWorld\<lparr>tlsEvents := (\<lambda>k. scripted [''220 ok'', ''250 ehlo-ok'', ''250 starttls-ok'',
                                                ''250 mail-ok'', ''550 no such user''])\<rparr>"

text \<open>The same with a TXT lookup that fails for the domain and succeeds for its
  \<open>_dmarc\<close> name.\<close>

definition spfFailingWorld :: world where
  "spfFailingWorld =
     exampleWorld\<lparr>resolveTxt :=
       (\<lambda>k d. if d = Some ''example.org'' then Inl (Error ''queryTxt ETIMEOUT example.org'')
              else Inr [[''v=DMARC1; p=none'']])\<rparr>"

definition exampleDns :: DnsVerificationResult where
  "exampleDns =
     \<lparr>hasMxRecord = True, hasSPF = False, hasDMARC = False,
      mxRecords = [\<lparr>exchange = ''mx2.example.org'', priority = 20\<rparr>,
                   \<lparr>exchange = ''mx1.example.org'', priority = 10\<rparr>],
      spfRecord = None, dmarcRecord = None, errors = []\<rparr>"

section \<open>Facts about the string primitives\<close>

lemma startsWith_prefix: "startsWith s p = prefix p s"
  by (induction s p rule: startsWith.induct) auto

lemma endsWith_suffix: "endsWith s p = suffix p s"
  by (simp add: endsWith_def startsWith_prefix suffix_to_prefix)

lemma includesStr_sublist: "includesStr s p = sublist p s"
  by (induction s) (auto simp: startsWith_prefix sublist_Cons_right)

lemma split_no_separator: "c \<notin> set s \<Longrightarrow> split c s = [s]"
  by (induction s) auto

lemma split_not_Nil: "split c s \<noteq> []"
  by (induction s) (auto split: list.splits)

lemma index_split_0: "index (split c s) 0 = Some (takeWhile (\<lambda>x. x \<noteq> c) s)"
proof (induction s)
  case Nil
  show ?case by (simp add: index_def)
next
  case (Cons x xs)
  then show ?case
    using split_not_Nil [of c xs]
    by (cases "split c xs") (auto simp: index_def)
qed

lemma arrayIncludes_undefined: "arrayIncludes xs None = False"
  by (auto simp: arrayIncludes_def)

text \<open>Lower-casing leaves the separators alone.\<close>

lemma lowerChar_separator:
  assumes "d \<in> {CHR ''@'', CHR ''.'', CHR ''-'', CHR ''_''}"
  shows "lowerChar c = d \<longleftrightarrow> c = d"
proof -
  define n where "n = (of_char c :: nat)"
  have dn: "(of_char d :: nat) \<in> {64, 46, 45, 95}" using assms by auto
  have cd: "c = d \<longleftrightarrow> n = of_char d" unfolding n_def by (metis of_char_eq_iff)
  show ?thesis
  proof (cases "(65 \<le> n \<and> n \<le> 90) \<or> (192 \<le> n \<and> n \<le> 214) \<or> (216 \<le> n \<and> n \<le> 222)")
    case True
    then have lc: "lowerChar c = char_of (n + 32)"
      by (simp add: lowerChar_def n_def Let_def)
    have "n + 32 < 256" using True by auto
    then have "(of_char (char_of (n + 32) :: char) :: nat) = n + 32"
      by (simp add: take_bit_nat_eq_self)
    then have "char_of (n + 32) \<noteq> d" using dn True by auto
    moreover have "n \<noteq> of_char d" using dn True by auto
    ultimately show ?thesis using lc cd by simp
  next
    case False
    then show ?thesis unfolding n_def by (auto simp: lowerChar_def Let_def)
  qed
qed

lemma separator_in_toLowerCase:
  assumes "d \<in> {CHR ''@'', CHR ''.'', CHR ''-'', CHR ''_''}"
  shows "d \<in> set (toLowerCase s) \<longleftrightarrow> d \<in> set s"
  by (simp add: toLowerCase_def image_iff) (metis lowerChar_separator [OF assms])

text \<open>Without a dot, a hyphen or an underscore in the local part, only equality is left
  of the eight rules.\<close>

lemma roleMatch_bare:
  assumes "CHR ''.'' \<notin> set l" "CHR ''-'' \<notin> set l" "CHR ''_'' \<notin> set l"
  shows "roleMatch l k \<longleftrightarrow> l = k"
proof -
  have pre: "\<And>p. c \<in> set p \<Longrightarrow> c \<notin> set l \<Longrightarrow> \<not> sublist p l" for c :: char
    using set_mono_sublist by blast
  have a: "\<not> prefix (k @ ''.'') l" using assms(1) by (auto dest!: set_mono_prefix)
  have b: "\<not> suffix (''.'' @ k) l" using assms(1) by (auto dest!: set_mono_suffix)
  have c: "\<not> sublist (''.'' @ k @ ''.'') l" using pre[of "CHR ''.''"] assms(1) by simp
  have d: "\<not> sublist (''-'' @ k) l" "\<not> sublist (k @ ''-'') l"
    using pre[of "CHR ''-''"] assms(2) by simp_all
  have e: "\<not> sublist (''_'' @ k) l" "\<not> sublist (k @ ''_'') l"
    using pre[of "CHR ''_''"] assms(3) by simp_all
  show ?thesis
    using a b c d e
    by (simp add: roleMatch_def startsWith_prefix endsWith_suffix includesStr_sublist)
qed

lemma isRoleEmail_isRoleMailbox:
  "isRoleEmail address = Inr (isRoleMailbox (takeWhile (\<lambda>c. c \<noteq> CHR ''@'') address))"
  by (simp add: isRoleEmail_def index_split_0 isRoleMailbox_def some_def list_ex_iff
      roleMatch_def startsWith_prefix endsWith_suffix includesStr_sublist Let_def)

lemma isRoleEmail_bare:
  assumes "CHR ''.'' \<notin> set address" "CHR ''-'' \<notin> set address" "CHR ''_'' \<notin> set address"
    and "CHR ''@'' \<notin> set address"
  shows "isRoleEmail address = Inr (toLowerCase address \<in> set roleKeywords)"
proof -
  have "roleMatch (toLowerCase address) k \<longleftrightarrow> toLowerCase address = k" for k
    using assms(1-3) by (intro roleMatch_bare) (simp_all add: separator_in_toLowerCase)
  then show ?thesis
    using assms(4)
    by (auto simp: isRoleEmail_def split_no_separator index_def some_def list_ex_iff)
qed

lemma takeWhile_toLowerCase:
  "takeWhile (\<lambda>c. c \<noteq> CHR ''@'') (toLowerCase s) =
     toLowerCase (takeWhile (\<lambda>c. c \<noteq> CHR ''@'') s)"
  by (induction s) (simp_all add: toLowerCase_def lowerChar_separator)

lemma isRoleEmail_case:
  assumes "toLowerCase a = toLowerCase b"
  shows "isRoleEmail a = isRoleEmail b"
proof -
  have "toLowerCase (takeWhile (\<lambda>c. c \<noteq> CHR ''@'') a) =
        toLowerCase (takeWhile (\<lambda>c. c \<noteq> CHR ''@'') b)"
    using assms takeWhile_toLowerCase by metis
  then show ?thesis
    by (simp add: isRoleEmail_isRoleMailbox isRoleMailbox_def)
qed

section \<open>Facts about the SMTP prober\<close>


lemma probing_tlsConnect: "probing a 0 (tlsConnect ''smtp.office365.com'' 587)"
  by (simp add: probing_def tlsConnect_def)

lemma finished_closeConnection:
  "probing a n c \<Longrightarrow>
     finished a n \<lparr>success = True, exists = ex, message = msg\<rparr> (closeConnection ex msg c)"
  by (simp add: probing_def finished_def closeConnection_def resolve_def socketDestroy_def
      socketWrite_def clearTimeout_def closedBy_def)

lemma length_commands: "length (commands a) = 4"
  by (simp add: commands_def Let_def)

lemma probing_write:
  assumes "probing a n c" "n < 4" "s = commands a ! n"
  shows "probing a (Suc n) ((socketWrite s c)\<lparr>step := step c + 1\<rparr>)"
  using assms
  by (simp add: probing_def socketWrite_def take_Suc_conv_app_nth length_commands)

lemma commands_nth:
  "commands a ! 0 = ''EHLO '' @ interpolate (index (split CHR ''@'' a) 1) @ CRLF"
  "commands a ! 1 = ''STARTTLS'' @ CRLF"
  "commands a ! 2 = ''MAIL FROM:<verify@'' @ interpolate (index (split CHR ''@'' a) 1) @ ''>'' @ CRLF"
  "commands a ! 3 = ''RCPT TO:<'' @ a @ ''>'' @ CRLF"
  by (simp_all add: commands_def Let_def)

lemma onData_cases:
  assumes "probing a n c" and d: "d = index (split CHR ''@'' a) 1"
  shows "(\<exists>n'. probing a n' (onData a d data c)) \<or> (\<exists>n' r. finished a n' r (onData a d data c))"
proof -
  let ?c = "c\<lparr>buffer := buffer c @ data\<rparr>\<lparr>buffer := []\<rparr>"
  have p: "probing a n ?c" using assms by (simp add: probing_def)
  have st: "step ?c = n" "n \<le> 4" using p by (simp_all add: probing_def)
  have w: "\<And>s. n < 4 \<Longrightarrow> s = commands a ! n \<Longrightarrow>
             \<exists>n'. probing a n' ((socketWrite s ?c)\<lparr>step := step ?c + 1\<rparr>)"
    using probing_write [OF p] by blast
  have f: "\<And>ex msg. \<exists>n' r. finished a n' r (closeConnection ex msg ?c)"
    using finished_closeConnection [OF p] by blast
  have q: "\<exists>n'. probing a n' (c\<lparr>buffer := buffer c @ data\<rparr>)"
    using assms by (auto simp: probing_def)
  consider "n = 0" | "n = 1" | "n = 2" | "n = 3" | "n = 4" using st(2) by linarith
  then show ?thesis
  proof cases
    case 1
    then show ?thesis
      unfolding onData_def Let_def
      using w [of "commands a ! 0"] f q st(1) d by (simp del: ex_simps add: commands_def Let_def)
  next
    case 2
    then show ?thesis
      unfolding onData_def Let_def
      using w [of "commands a ! 1"] f q st(1) d by (simp del: ex_simps add: commands_def Let_def)
  next
    case 3
    then show ?thesis
      unfolding onData_def Let_def
      using w [of "commands a ! 2"] f q st(1) d by (simp del: ex_simps add: commands_def Let_def)
  next
    case 4
    then show ?thesis
      unfolding onData_def Let_def
      using w [of "commands a ! 3"] f q st(1) d by (simp del: ex_simps add: commands_def Let_def)
  next
    case 5
    then show ?thesis
      unfolding onData_def Let_def
      using f q st(1) by (simp del: ex_simps)
  qed
qed

lemma deliver_cases:
  assumes "(\<exists>n. probing a n c) \<or> (\<exists>n r. finished a n r c)" and d: "d = index (split CHR ''@'' a) 1"
  shows "(\<exists>n. probing a n (deliver a d c ev)) \<or> (\<exists>n r. finished a n r (deliver a d c ev))"
  using assms(1)
proof
  assume "\<exists>n. probing a n c"
  then obtain n where p: "probing a n c" ..
  then have nd: "\<not> destroyed c" by (simp add: probing_def)
  show ?thesis
  proof (cases ev)
    case (OnData data)
    then show ?thesis using nd onData_cases [OF p d] by (simp add: deliver_def)
  next
    case (OnError err)
    from finished_closeConnection [OF p, of False "''Connection error: '' @ messageOf err"]
    have "\<exists>n r. finished a n r
            (closeConnection False (''Connection error: '' @ messageOf err) c)"
      by blast
    then show ?thesis using nd OnError by (simp add: deliver_def)
  qed (use nd p in \<open>auto simp: deliver_def\<close>)
next
  assume "\<exists>n r. finished a n r c"
  then show ?thesis by (auto simp: deliver_def finished_def)
qed

lemma foldl_deliver_cases:
  assumes "(\<exists>n. probing a n c) \<or> (\<exists>n r. finished a n r c)" and d: "d = index (split CHR ''@'' a) 1"
  shows "(\<exists>n. probing a n (foldl (deliver a d) c evs)) \<or>
         (\<exists>n r. finished a n r (foldl (deliver a d) c evs))"
  using assms(1)
proof (induction evs arbitrary: c)
  case Nil
  then show ?case by simp
next
  case (Cons ev evs)
  show ?case using Cons.IH [OF deliver_cases [OF Cons.prems d]] by simp
qed

lemma expire_probing:
  "probing a n c \<Longrightarrow>
     did (expire c) = timedOut (take n (commands a)) \<and> settled (expire c) = Resolved timeoutResult"
  by (simp add: probing_def expire_def onTimer_def resolve_def socketDestroy_def timedOut_def
      timeoutResult_def)

lemma expire_finished:
  "finished a n r c \<Longrightarrow>
     did (expire c) = closedBy (take n (commands a)) r \<and> settled (expire c) = Resolved r"
  by (simp add: finished_def expire_def)

lemma verifyEmail_ends:
  assumes "hasMxRecord dns" "mxRecords dns \<noteq> []"
  shows "\<exists>n\<le>4. (\<exists>r. success r \<and>
                  verifyEmail w clock a dns =
                    (closedBy (take n (commands a)) r, clock + 1, Resolved r))
            \<or> verifyEmail w clock a dns =
                 (timedOut (take n (commands a)), clock + 1, Resolved timeoutResult)"
proof -
  let ?c = "foldl (deliver a (index (split CHR ''@'' a) 1)) (tlsConnect ''smtp.office365.com'' 587)
              (tlsEvents w clock)"
  have v: "verifyEmail w clock a dns = (did (expire ?c), clock + 1, settled (expire ?c))"
    using assms by (simp add: verifyEmail_def Let_def)
  have "(\<exists>n. probing a n ?c) \<or> (\<exists>n r. finished a n r ?c)"
    using probing_tlsConnect by (intro foldl_deliver_cases) blast+
  then show ?thesis
  proof
    assume "\<exists>n. probing a n ?c"
    then obtain n where p: "probing a n ?c" ..
    then have "n \<le> 4" by (simp add: probing_def)
    with expire_probing [OF p] v show ?thesis by auto
  next
    assume "\<exists>n r. finished a n r ?c"
    then obtain n r where f: "finished a n r ?c" by blast
    then have "success r" "n \<le> 4" by (simp_all add: finished_def)
    with expire_finished [OF f] v show ?thesis by auto
  qed
qed

lemma connects_map_Write: "connects (map Write ws @ es) = connects es"
  by (induction ws) auto

lemma connects_closedBy: "connects (closedBy ws r) = [(''smtp.office365.com'', 587)]"
  by (simp add: closedBy_def connects_map_Write)

lemma connects_timedOut: "connects (timedOut ws) = [(''smtp.office365.com'', 587)]"
  by (simp add: timedOut_def connects_map_Write)

lemma resolves_map_Write: "resolves (map Write ws @ es) = resolves es"
  by (induction ws) auto

lemma writes_map_Write: "writes (map Write ws @ es) = ws @ writes es"
  by (induction ws) auto

lemmas probe_simps = verifyEmail_def scripted_def Let_def tlsConnect_def deliver_def onData_def
  CRLF_def trim_def isWhiteSpace_def socketWrite_def closeConnection_def resolve_def
  socketDestroy_def clearTimeout_def expire_def onTimer_def closedBy_def timedOut_def
  timeoutResult_def commands_def

lemma scripted_accept:
  assumes "hasMxRecord dns" "mxRecords dns \<noteq> []"
    and "tlsEvents w clock = scripted [''220 ok'', ''250 ehlo-ok'', ''250 starttls-ok'', ''250 mail-ok'', ''250 rcpt-ok'']"
  shows "verifyEmail w clock a dns =
           (closedBy (commands a) \<lparr>success = True, exists = True, message = ''Email exists''\<rparr>,
            clock + 1, Resolved \<lparr>success = True, exists = True, message = ''Email exists''\<rparr>)"
  using assms by (simp add: probe_simps)

lemma scripted_reject:
  assumes "hasMxRecord dns" "mxRecords dns \<noteq> []"
    and "tlsEvents w clock = scripted [''220 ok'', ''250 ehlo-ok'', ''250 starttls-ok'', ''250 mail-ok'', ''550 no such user'']"
  shows "verifyEmail w clock a dns =
           (closedBy (commands a) \<lparr>success = True, exists = False, message = ''Email does not exist''\<rparr>,
            clock + 1, Resolved \<lparr>success = True, exists = False, message = ''Email does not exist''\<rparr>)"
  using assms by (simp add: probe_simps)

lemma quiet_deliver:
  "ev = OnConnect \<or> ev = OnTimeout \<Longrightarrow> deliver a d c ev = c"
  by (auto simp: deliver_def)

lemma quiet_foldl:
  "\<forall>ev \<in> set evs. ev = OnConnect \<or> ev = OnTimeout \<Longrightarrow> foldl (deliver a d) c evs = c"
  by (induction evs arbitrary: c) (auto simp: quiet_deliver)

lemma no_response:
  assumes "hasMxRecord dns" "mxRecords dns \<noteq> []"
    and "\<forall>ev \<in> set (tlsEvents w clock). ev = OnConnect \<or> ev = OnTimeout"
  shows "verifyEmail w clock a dns = (timedOut [], clock + 1, Resolved timeoutResult)"
  using assms(1,2) quiet_foldl [OF assms(3)]
  by (simp add: verifyEmail_def Let_def expire_def tlsConnect_def onTimer_def resolve_def
      socketDestroy_def timedOut_def timeoutResult_def)


lemma connects_append: "connects (xs @ ys) = connects xs @ connects ys"
  by (induction xs rule: connects.induct) auto

lemma resolves_append: "resolves (xs @ ys) = resolves xs @ resolves ys"
  by (induction xs rule: resolves.induct) auto

lemma writes_append: "writes (xs @ ys) = writes xs @ writes ys"
  by (induction xs rule: writes.induct) auto

lemma resolves_closedBy: "resolves (closedBy ws r) = [r]"
  by (simp add: closedBy_def resolves_map_Write)

lemma resolves_timedOut: "resolves (timedOut ws) = [timeoutResult]"
  by (simp add: timedOut_def resolves_map_Write)

lemma verifyEmailDns_events:
  "\<exists>dns. verifyEmailDns w clock a = (dnsEvents a, clock + 3, dns)"
  by (simp add: verifyEmailDns_def dnsEvents_def Let_def)

lemma dnsEvents_quiet [simp]:
  "connects (dnsEvents a) = []" "resolves (dnsEvents a) = []" "writes (dnsEvents a) = []"
  by (simp_all add: dnsEvents_def Let_def)

lemma verifyEmail_summary:
  "\<exists>t c r. verifyEmail w clock a dns = (t, c, Resolved r) \<and>
     (\<exists>v \<in> set (resolves t). exists v) = exists r"
proof (cases "hasMxRecord dns \<and> mxRecords dns \<noteq> []")
  case True
  then have "hasMxRecord dns" "mxRecords dns \<noteq> []" by simp_all
  from verifyEmail_ends [OF this, of w clock a] show ?thesis
    by (auto simp: resolves_closedBy resolves_timedOut timeoutResult_def)
next
  case False
  then show ?thesis by (auto simp: verifyEmail_def)
qed

lemma checkFreeOrPaid_throws:
  "(\<exists>err. checkFreeOrPaid a = Inl err) \<longleftrightarrow> index (split CHR ''@'' a) 1 = None"
  by (auto simp: checkFreeOrPaid_def Let_def split: option.splits)

lemma isBlacklisted_has_domain:
  "isBlacklisted bl a \<Longrightarrow> \<exists>d. index (split CHR ''@'' a) 1 = Some d"
  by (cases "index (split CHR ''@'' a) 1") (auto simp: isBlacklisted_def arrayIncludes_undefined)

lemma getInfoEmail_throws:
  "checkFreeOrPaid a = Inl err \<Longrightarrow> getInfoEmail w clock a records = ([], clock, Inl err)"
  by (simp add: getInfoEmail_def)

lemma getInfoEmail_returns:
  assumes "checkFreeOrPaid a = Inr fr"
  shows "\<exists>rl mxs provider.
           getInfoEmail w clock a records =
             (dnsEvents a, clock + 3, Inr (fr, rl, mxs, provider, isBlacklisted (blacklist w) a))"
proof -
  obtain dns where d: "verifyEmailDns w clock a = (dnsEvents a, clock + 3, dns)"
    using verifyEmailDns_events by blast
  obtain mxs provider where e: "extractMxRecords records = (mxs, provider)"
    by (cases "extractMxRecords records")
  show ?thesis
    using assms d e by (simp add: getInfoEmail_def isRoleEmail_isRoleMailbox)
qed

lemma createAndReturn_cases:
  "(\<exists>err. createRejects w clock doc = Some err \<and>
          createAndReturn w clock prior doc =
            (prior @ [Create doc, LoggerError (messageOf err)], clock + 1, Resolved None))
   \<or> (createRejects w clock doc = None \<and>
       createAndReturn w clock prior doc = (prior @ [Create doc], clock + 1, Resolved (Some doc)))"
  by (cases "createRejects w clock doc") (simp_all add: createAndReturn_def emailsModelCreate_def)

section \<open>Facts about the orchestrator\<close>


lemma verifyOneEmail_cases:
  "(\<exists>err. checkFreeOrPaid (check data) = Inl err \<and>
       verifyOneEmail w clock data =
         (dnsEvents (check data) @ [LoggerError (messageOf err)], clock + 3, Resolved None))
   \<or> (\<exists>t3 c3 doc.
         index (split CHR ''@'' (check data)) 1 \<noteq> None \<and> email doc = check data \<and>
         (if isBlacklisted (blacklist w) (check data)
          then t3 = [] \<and> state doc = Risky \<and> score doc = 5
          else (if \<exists>v \<in> set (resolves t3). exists v
                then state doc = Deliverable \<and> score doc = 99
                else state doc = Undeliverable \<and> score doc = 0)) \<and>
         verifyOneEmail w clock data =
           createAndReturn w c3 (dnsEvents (check data) @ dnsEvents (check data) @ t3) doc)"
proof (cases "checkFreeOrPaid (check data)")
  case (Inl err)
  obtain dns where d: "verifyEmailDns w clock (check data) = (dnsEvents (check data), clock + 3, dns)"
    using verifyEmailDns_events by blast
  show ?thesis
    using Inl d getInfoEmail_throws [OF Inl]
    by (simp add: verifyOneEmail_def)
next
  case (Inr fr)
  let ?a = "check data"
  obtain dns where d: "verifyEmailDns w clock ?a = (dnsEvents ?a, clock + 3, dns)"
    using verifyEmailDns_events by blast
  obtain rl mxs provider where
    g: "getInfoEmail w (clock + 3) ?a (mxRecords dns) =
          (dnsEvents ?a, clock + 3 + 3, Inr (fr, rl, mxs, provider, isBlacklisted (blacklist w) ?a))"
    using getInfoEmail_returns [OF Inr] by blast
  have dom: "index (split CHR ''@'' ?a) 1 \<noteq> None"
    using Inr checkFreeOrPaid_throws [of ?a] by auto
  show ?thesis
  proof (cases "isBlacklisted (blacklist w) ?a")
    case True
    then show ?thesis
      using d g dom by (simp add: verifyOneEmail_def) (metis Emails.select_convs(1,2,3))
  next
    case False
    obtain t3 c3 r where
      v: "verifyEmail w (clock + 3 + 3) ?a dns = (t3, c3, Resolved r)"
      and e: "(\<exists>v \<in> set (resolves t3). exists v) = exists r"
      using verifyEmail_summary by blast
    show ?thesis
    proof (cases "exists r")
      case True
      with e have "\<exists>v \<in> set (resolves t3). exists v" by simp
      then show ?thesis
        using d g dom False v True
        by (simp add: verifyOneEmail_def) (metis Emails.select_convs(1,2,3))
    next
      case no: False
      with e have "\<not> (\<exists>v \<in> set (resolves t3). exists v)" by simp
      then show ?thesis
        using d g dom False v no
        by (simp add: verifyOneEmail_def) (metis Emails.select_convs(1,2,3))
    qed
  qed
qed

lemma quit_not_command: "''QUIT'' @ CRLF \<notin> set (take n (commands a))"
proof -
  have "''QUIT'' @ CRLF \<notin> set (commands a)" by (simp add: commands_def Let_def)
  then show ?thesis using set_take_subset [of n "commands a"] by blast
qed

text \<open>The three ways through \<open>verifyOneEmail\<close>, each with what it hands to the store.\<close>

lemma creates_append: "creates (xs @ ys) = creates xs @ creates ys"
  by (induction xs rule: creates.induct) auto

lemma creates_map_Write: "creates (map Write ws @ es) = creates es"
  by (induction ws) auto

lemma creates_dnsEvents [simp]: "creates (dnsEvents a) = []"
  by (simp add: dnsEvents_def Let_def)

lemma creates_verifyEmail: "creates (fst (verifyEmail w clock a dns)) = []"
proof (cases "hasMxRecord dns \<and> mxRecords dns \<noteq> []")
  case True
  then have "hasMxRecord dns" "mxRecords dns \<noteq> []" by simp_all
  from verifyEmail_ends [OF this, of w clock a] show ?thesis
    by (auto simp: closedBy_def timedOut_def creates_map_Write)
next
  case False
  then show ?thesis by (auto simp: verifyEmail_def)
qed

lemma verifyEmail_settles:
  "\<exists>t c r. verifyEmail w clock a dns = (t, c, Resolved r)"
  using verifyEmail_summary [of w clock a dns] by blast

lemma verifyOneEmail_no_domain:
  assumes "index (split CHR ''@'' (check data)) 1 = None"
  shows "verifyOneEmail w clock data =
           (dnsEvents (check data) @ [LoggerError (messageOf (undefinedRead ''toLowerCase''))],
            clock + 3, Resolved None)"
proof -
  have c: "checkFreeOrPaid (check data) = Inl (undefinedRead ''toLowerCase'')"
    using assms by (simp add: checkFreeOrPaid_def)
  obtain dns where d: "verifyEmailDns w clock (check data) = (dnsEvents (check data), clock + 3, dns)"
    using verifyEmailDns_events by blast
  show ?thesis
    using d getInfoEmail_throws [OF c] by (simp add: verifyOneEmail_def)
qed

lemma verifyOneEmail_disposable:
  assumes "isBlacklisted (blacklist w) (check data)"
  shows "\<exists>doc. email doc = check data \<and> state doc = Risky \<and> score doc = 5 \<and> disposable doc \<and>
           verifyOneEmail w clock data =
             createAndReturn w (clock + 6) (dnsEvents (check data) @ dnsEvents (check data)) doc"
proof -
  let ?a = "check data"
  have "index (split CHR ''@'' ?a) 1 \<noteq> None"
    using isBlacklisted_has_domain [OF assms] by auto
  then obtain fr where f: "checkFreeOrPaid ?a = Inr fr"
    using checkFreeOrPaid_throws [of ?a] by (cases "checkFreeOrPaid ?a") auto
  obtain dns where d: "verifyEmailDns w clock ?a = (dnsEvents ?a, clock + 3, dns)"
    using verifyEmailDns_events by blast
  obtain rl mxs provider where
    g: "getInfoEmail w (clock + 3) ?a (mxRecords dns) =
          (dnsEvents ?a, clock + 3 + 3, Inr (fr, rl, mxs, provider, isBlacklisted (blacklist w) ?a))"
    using getInfoEmail_returns [OF f] by blast
  have six: "clock + 3 + 3 = clock + 6" by simp
  show ?thesis
    using d g assms unfolding six
    by (simp add: verifyOneEmail_def) (metis Emails.select_convs(1,2,3,6))
qed

lemma verifyOneEmail_probed:
  assumes nb: "\<not> isBlacklisted (blacklist w) (check data)"
    and dom: "index (split CHR ''@'' (check data)) 1 \<noteq> None"
    and v: "verifyEmail w (clock + 6) (check data) (snd (snd (verifyEmailDns w clock (check data)))) =
              (t3, c3, Resolved smtp)"
  shows "\<exists>doc. email doc = check data \<and> \<not> disposable doc \<and>
           state doc = (if exists smtp then Deliverable else Undeliverable) \<and>
           score doc = (if exists smtp then 99 else 0) \<and>
           verifyOneEmail w clock data =
             createAndReturn w c3 (dnsEvents (check data) @ dnsEvents (check data) @ t3) doc"
proof -
  let ?a = "check data"
  obtain fr where f: "checkFreeOrPaid ?a = Inr fr"
    using dom checkFreeOrPaid_throws [of ?a] by (cases "checkFreeOrPaid ?a") auto
  obtain dns where d: "verifyEmailDns w clock ?a = (dnsEvents ?a, clock + 3, dns)"
    using verifyEmailDns_events by blast
  obtain rl mxs provider where
    g: "getInfoEmail w (clock + 3) ?a (mxRecords dns) =
          (dnsEvents ?a, clock + 3 + 3, Inr (fr, rl, mxs, provider, isBlacklisted (blacklist w) ?a))"
    using getInfoEmail_returns [OF f] by blast
  have six: "clock + 3 + 3 = clock + 6" by simp
  have v': "verifyEmail w (clock + 6) ?a dns = (t3, c3, Resolved smtp)"
    using v d by simp
  show ?thesis
  proof (cases "exists smtp")
    case True
    then show ?thesis
      using d g nb v' unfolding six
      by (simp add: verifyOneEmail_def) (metis Emails.select_convs(1,2,3,6))
  next
    case False
    then show ?thesis
      using d g nb v' unfolding six
      by (simp add: verifyOneEmail_def) (metis Emails.select_convs(1,2,3,6))
  qed
qed

section \<open>Facts about the DNS resolver and the probe over the exchanges\<close>

lemma truthy_find_startsWith:
  assumes "p \<noteq> []"
  shows "truthy (find (\<lambda>x. startsWith x p) xs) = (\<exists>x \<in> set xs. startsWith x p)"
proof (cases "find (\<lambda>x. startsWith x p) xs")
  case None
  then have "\<not> (\<exists>x \<in> set xs. startsWith x p)" by (simp add: find_None_iff)
  with None show ?thesis by simp
next
  case (Some x)
  then have "startsWith x p" "x \<in> set xs" by (auto simp: find_Some_iff)
  moreover from \<open>startsWith x p\<close> assms have "x \<noteq> []" by (cases x; cases p) auto
  ultimately show ?thesis using Some by auto
qed

lemma lookupSpf_fields:
  "lookupSpf (Inr txt) r =
     (if \<exists>x \<in> set (concat txt). startsWith x ''v=spf1''
      then r\<lparr>hasSPF := True, spfRecord := find (\<lambda>x. startsWith x ''v=spf1'') (concat txt)\<rparr>
      else r\<lparr>hasSPF := False\<rparr>)"
  using truthy_find_startsWith [of "''v=spf1''" "concat txt"]
  by (simp add: lookupSpf_def Let_def del: set_concat)

lemma lookupDmarc_fields:
  "lookupDmarc (Inr txt) r =
     (if \<exists>x \<in> set (concat txt). startsWith x ''v=DMARC1''
      then r\<lparr>hasDMARC := True, dmarcRecord := find (\<lambda>x. startsWith x ''v=DMARC1'') (concat txt)\<rparr>
      else r\<lparr>hasDMARC := False\<rparr>)"
  using truthy_find_startsWith [of "''v=DMARC1''" "concat txt"]
  by (simp add: lookupDmarc_def Let_def del: set_concat)

lemma connects_handshakeEvent:
  "connects (acts (handshakeEvent u d h ev)) = connects (acts h)"
  by (cases ev)
     (auto simp: handshakeEvent_def handshakeData_def act_def settle_def connects_append)

lemma connects_foldl_handshakeEvent:
  "connects (acts (foldl (handshakeEvent u d) h evs)) = connects (acts h)"
  by (induction evs arbitrary: h) (simp_all add: connects_handshakeEvent)

lemma smtpHandshake_connects:
  "connects (fst (smtpHandshake w clock s u d)) = [(s, 25)]"
  by (simp add: smtpHandshake_def Let_def connects_foldl_handshakeEvent)

lemma tryExchanges_connects:
  "\<exists>n. connects (fst (tryExchanges w clock ms u d)) = map (\<lambda>m. (exchange m, 25)) (take n ms)"
proof (induction ms arbitrary: clock)
  case Nil
  then show ?case by simp
next
  case (Cons m ms)
  obtain t c p where h: "smtpHandshake w clock (exchange m) u d = (t, c, p)"
    by (cases "smtpHandshake w clock (exchange m) u d")
  then have t: "connects t = [(exchange m, 25)]"
    using smtpHandshake_connects [of w clock "exchange m" u d] by simp
  have one: "connects t = map (\<lambda>m. (exchange m, 25)) (take 1 (m # ms))"
    using t by simp
  show ?case
  proof (cases "p = Pending \<or> p = Resolved (Inr True)")
    case True
    then have "fst (tryExchanges w clock (m # ms) u d) = t"
      using h by auto
    then show ?thesis using one by metis
  next
    case False
    obtain t' c' r where r: "tryExchanges w c ms u d = (t', c', r)"
      by (cases "tryExchanges w c ms u d")
    from False have "fst (tryExchanges w clock (m # ms) u d) = t @ t'"
      using h r by (cases p; simp split: sum.splits bool.splits)
    moreover from Cons.IH [of c] r obtain n where
      "connects t' = map (\<lambda>m. (exchange m, 25)) (take n ms)" by auto
    ultimately have "connects (fst (tryExchanges w clock (m # ms) u d)) =
        map (\<lambda>m. (exchange m, 25)) (take (Suc n) (m # ms))"
      using t by (simp add: connects_append)
    then show ?thesis by blast
  qed
qed

section \<open>Facts about the batch loop\<close>

lemma verifyOneEmail_settles:
  "\<exists>t c out. verifyOneEmail w clock data = (t, c, Resolved out) \<and>
     (\<forall>r. out = Some r \<longrightarrow> email r = check data)"
  using verifyOneEmail_cases [of data w clock]
proof (elim disjE exE conjE)
  fix err
  assume "verifyOneEmail w clock data =
           (dnsEvents (check data) @ [LoggerError (messageOf err)], clock + 3, Resolved None)"
  then show ?thesis by simp
next
  fix t3 c3 doc
  assume e: "email doc = check data"
    and v: "verifyOneEmail w clock data =
              createAndReturn w c3 (dnsEvents (check data) @ dnsEvents (check data) @ t3) doc"
  from createAndReturn_cases [of w c3 doc "dnsEvents (check data) @ dnsEvents (check data) @ t3"]
  show ?thesis using v e by auto
qed

lemma verifyManyLoop_shape:
  "\<exists>clocks c out. length clocks = length es \<and>
      verifyManyLoop w clock user es dataa =
        (rounds w user (zip clocks es), c, Resolved (dataa @ out)) \<and>
      list_all2 (answers w user) (zip clocks es) out"
proof (induction es arbitrary: clock dataa)
  case Nil
  then show ?case by (simp add: rounds_def)
next
  case (Cons e es)
  obtain t c1 res where
    v: "verifyOneEmail w clock (request user e) = (t, c1, Resolved res)"
    and m: "\<forall>r. res = Some r \<longrightarrow> email r = check (request user e)"
    using verifyOneEmail_settles [of w clock "request user e"] by blast
  from Cons.IH [of c1 "dataa @ [res]"] obtain clocks c out where
    l: "length clocks = length es"
    and r: "verifyManyLoop w c1 user es (dataa @ [res]) =
              (rounds w user (zip clocks es), c, Resolved ((dataa @ [res]) @ out))"
    and a: "list_all2 (answers w user) (zip clocks es) out"
    by blast
  have 1: "length (clock # clocks) = length (e # es)" using l by simp
  have 2: "verifyManyLoop w clock user (e # es) dataa =
             (rounds w user (zip (clock # clocks) (e # es)), c, Resolved (dataa @ (res # out)))"
    using v r by (simp add: rounds_def request_def)
  have 3: "list_all2 (answers w user) (zip (clock # clocks) (e # es)) (res # out)"
    using a v m by (simp add: answers_def request_def)
  from 1 2 3 show ?case by blast
qed

section \<open>The properties of the specification, settled on the code\<close>

text \<open>
  C1. \<open>verifyOneEmail\<close> always settles, and what it hands to the store and returns is
  fixed by the classification and by the probe. If the address is disposable
  (\<open>isBlacklisted\<close>): no connection is opened, nothing is written and no probe resolves;
  one document is created, with state Risky and score 5, and it is the record returned
  (when the store accepts it). If the address is not disposable and has a domain part:
  \<open>verifyEmail\<close> is run once, on the address and the DNS result just resolved; the
  connections, the lines written and the resolved values of the whole call are those of
  this probe; one document is created, Deliverable with score 99 if the probe resolved
  with \<open>exists = true\<close> and Undeliverable with score 0 if not, and it is the record
  returned (when the store accepts it). Without a domain part no record is returned.
\<close>

theorem verifyOneEmail_state_and_score:
  "\<exists>t c out. verifyOneEmail w clock data = (t, c, Resolved out) \<and>
     (index (split CHR ''@'' (check data)) 1 = None \<longrightarrow> out = None) \<and>
     (isBlacklisted (blacklist w) (check data) \<longrightarrow>
        connects t = [] \<and> writes t = [] \<and> resolves t = [] \<and>
        (\<exists>doc. creates t = [doc] \<and> email doc = check data \<and>
               state doc = Risky \<and> score doc = 5 \<and>
               out = (if createRejects w (clock + 6) doc = None then Some doc else None))) \<and>
     (\<not> isBlacklisted (blacklist w) (check data) \<and>
      index (split CHR ''@'' (check data)) 1 \<noteq> None \<longrightarrow>
        (\<exists>t3 c3 smtp doc.
            verifyEmail w (clock + 6) (check data)
              (snd (snd (verifyEmailDns w clock (check data)))) = (t3, c3, Resolved smtp) \<and>
            connects t = connects t3 \<and> writes t = writes t3 \<and> resolves t = resolves t3 \<and>
            creates t = [doc] \<and> email doc = check data \<and>
            state doc = (if exists smtp then Deliverable else Undeliverable) \<and>
            score doc = (if exists smtp then 99 else 0) \<and>
            out = (if createRejects w c3 doc = None then Some doc else None)))"
proof -
  let ?a = "check data"
  let ?dns = "snd (snd (verifyEmailDns w clock ?a))"
  consider (none) "index (split CHR ''@'' ?a) 1 = None"
    | (disp) "isBlacklisted (blacklist w) ?a"
    | (probe) "\<not> isBlacklisted (blacklist w) ?a" "index (split CHR ''@'' ?a) 1 \<noteq> None"
    by blast
  then show ?thesis
  proof cases
    case none
    then have nb: "\<not> isBlacklisted (blacklist w) ?a"
      using isBlacklisted_has_domain [of "blacklist w" ?a] by auto
    show ?thesis
      using verifyOneEmail_no_domain [OF none, of w clock] none nb by simp
  next
    case disp
    then have dom: "index (split CHR ''@'' ?a) 1 \<noteq> None"
      using isBlacklisted_has_domain [of "blacklist w" ?a] by auto
    from verifyOneEmail_disposable [OF disp, of clock] obtain doc where
      d: "email doc = ?a" "state doc = Risky" "score doc = 5"
      and v: "verifyOneEmail w clock data =
                createAndReturn w (clock + 6) (dnsEvents ?a @ dnsEvents ?a) doc"
      by blast
    from createAndReturn_cases [of w "clock + 6" doc "dnsEvents ?a @ dnsEvents ?a"]
    show ?thesis
    proof (elim disjE exE conjE)
      fix err
      assume "createRejects w (clock + 6) doc = Some err"
        and "createAndReturn w (clock + 6) (dnsEvents ?a @ dnsEvents ?a) doc =
               ((dnsEvents ?a @ dnsEvents ?a) @ [Create doc, LoggerError (messageOf err)],
                clock + 6 + 1, Resolved None)"
      then show ?thesis
        using v d disp dom
        by (simp add: connects_append writes_append resolves_append creates_append)
    next
      assume "createRejects w (clock + 6) doc = None"
        and "createAndReturn w (clock + 6) (dnsEvents ?a @ dnsEvents ?a) doc =
               ((dnsEvents ?a @ dnsEvents ?a) @ [Create doc], clock + 6 + 1, Resolved (Some doc))"
      then show ?thesis
        using v d disp dom
        by (simp add: connects_append writes_append resolves_append creates_append)
    qed
  next
    case probe
    obtain t3 c3 smtp where
      p: "verifyEmail w (clock + 6) ?a ?dns = (t3, c3, Resolved smtp)"
      using verifyEmail_settles by blast
    have ct: "creates t3 = []"
      using creates_verifyEmail [of w "clock + 6" ?a ?dns] p by simp
    from verifyOneEmail_probed [OF probe p] obtain doc where
      d: "email doc = ?a" "state doc = (if exists smtp then Deliverable else Undeliverable)"
         "score doc = (if exists smtp then 99 else 0)"
      and v: "verifyOneEmail w clock data =
                createAndReturn w c3 (dnsEvents ?a @ dnsEvents ?a @ t3) doc"
      by blast
    from createAndReturn_cases [of w c3 doc "dnsEvents ?a @ dnsEvents ?a @ t3"]
    show ?thesis
    proof (elim disjE exE conjE)
      fix err
      assume "createRejects w c3 doc = Some err"
        and "createAndReturn w c3 (dnsEvents ?a @ dnsEvents ?a @ t3) doc =
               ((dnsEvents ?a @ dnsEvents ?a @ t3) @ [Create doc, LoggerError (messageOf err)],
                c3 + 1, Resolved None)"
      then show ?thesis
        using v d probe p ct
        by (simp add: connects_append writes_append resolves_append creates_append)
    next
      assume "createRejects w c3 doc = None"
        and "createAndReturn w c3 (dnsEvents ?a @ dnsEvents ?a @ t3) doc =
               ((dnsEvents ?a @ dnsEvents ?a @ t3) @ [Create doc], c3 + 1, Resolved (Some doc))"
      then show ?thesis
        using v d probe p ct
        by (simp add: connects_append writes_append resolves_append creates_append)
    qed
  qed
qed

theorem verifyOneEmail_state_and_score_witness:
  "isBlacklisted (blacklist exampleWorld) ''bob@mailinator.com'' \<and>
   (\<exists>t c r. verifyOneEmail exampleWorld 0
               \<lparr>VerifyOneDto.email = ''me@example.org'', check = ''bob@mailinator.com''\<rparr> =
               (t, c, Resolved (Some r)) \<and>
            state r = Risky \<and> score r = 5 \<and> connects t = []) \<and>
   \<not> isBlacklisted (blacklist exampleWorld) ''bob@example.org'' \<and>
   index (split CHR ''@'' ''bob@example.org'') 1 \<noteq> None \<and>
   (\<exists>t c r. verifyOneEmail exampleWorld 0
               \<lparr>VerifyOneDto.email = ''me@example.org'', check = ''bob@example.org''\<rparr> =
               (t, c, Resolved (Some r)) \<and>
            state r = Deliverable \<and> score r = 99) \<and>
   (\<exists>t c r. verifyOneEmail unknownUserWorld 0
               \<lparr>VerifyOneDto.email = ''me@example.org'', check = ''bob@example.org''\<rparr> =
               (t, c, Resolved (Some r)) \<and>
            state r = Undeliverable \<and> score r = 0)"
proof -
  let ?d1 = "\<lparr>VerifyOneDto.email = ''me@example.org'', check = ''bob@mailinator.com''\<rparr>"
  let ?d2 = "\<lparr>VerifyOneDto.email = ''me@example.org'', check = ''bob@example.org''\<rparr>"
  have b1: "isBlacklisted (blacklist exampleWorld) (check ?d1)"
    by (simp add: exampleWorld_def isBlacklisted_def index_def arrayIncludes_def)
  have b2: "\<not> isBlacklisted (blacklist exampleWorld) (check ?d2)"
    by (simp add: exampleWorld_def isBlacklisted_def index_def arrayIncludes_def)
  have b3: "\<not> isBlacklisted (blacklist unknownUserWorld) (check ?d2)"
    by (simp add: unknownUserWorld_def exampleWorld_def isBlacklisted_def index_def
        arrayIncludes_def)
  have i2: "index (split CHR ''@'' (check ?d2)) 1 \<noteq> None"
    by (simp add: index_def)
  have c1: "\<And>k doc. createRejects exampleWorld k doc = None"
    by (simp add: exampleWorld_def)
  have c3: "\<And>k doc. createRejects unknownUserWorld k doc = None"
    by (simp add: unknownUserWorld_def exampleWorld_def)
  let ?dns2 = "snd (snd (verifyEmailDns exampleWorld 0 (check ?d2)))"
  let ?dns3 = "snd (snd (verifyEmailDns unknownUserWorld 0 (check ?d2)))"
  have m2: "hasMxRecord ?dns2" "mxRecords ?dns2 \<noteq> []"
    by (simp_all add: verifyEmailDns_def exampleWorld_def Let_def lookupMx_def lookupSpf_def
        lookupDmarc_def)
  have m3: "hasMxRecord ?dns3" "mxRecords ?dns3 \<noteq> []"
    by (simp_all add: verifyEmailDns_def unknownUserWorld_def exampleWorld_def Let_def
        lookupMx_def lookupSpf_def lookupDmarc_def)
  have e2: "tlsEvents exampleWorld (0 + 6) =
              scripted [''220 ok'', ''250 ehlo-ok'', ''250 starttls-ok'', ''250 mail-ok'',
                        ''250 rcpt-ok'']"
    by (simp add: exampleWorld_def)
  have e3: "tlsEvents unknownUserWorld (0 + 6) =
              scripted [''220 ok'', ''250 ehlo-ok'', ''250 starttls-ok'', ''250 mail-ok'',
                        ''550 no such user'']"
    by (simp add: unknownUserWorld_def)
  note p2 = scripted_accept [OF m2 e2, of "check ?d2"]
  note p3 = scripted_reject [OF m3 e3, of "check ?d2"]
  from verifyOneEmail_state_and_score [of exampleWorld 0 ?d1] b1 c1
  have 1: "\<exists>t c r. verifyOneEmail exampleWorld 0 ?d1 = (t, c, Resolved (Some r)) \<and>
            state r = Risky \<and> score r = 5 \<and> connects t = []"
    by (auto simp del: split_paired_Ex)
  from verifyOneEmail_state_and_score [of exampleWorld 0 ?d2]
  obtain t c out t3 k3 smtp doc where
    v: "verifyOneEmail exampleWorld 0 ?d2 = (t, c, Resolved out)"
    and p: "verifyEmail exampleWorld (0 + 6) (check ?d2) ?dns2 = (t3, k3, Resolved smtp)"
    and s: "state doc = (if exists smtp then Deliverable else Undeliverable)"
           "score doc = (if exists smtp then 99 else 0)"
    and o: "out = (if createRejects exampleWorld k3 doc = None then Some doc else None)"
    using b2 i2 by blast
  from p p2 have "exists smtp" by simp
  with s o c1 v
  have 2: "\<exists>t c r. verifyOneEmail exampleWorld 0 ?d2 = (t, c, Resolved (Some r)) \<and>
            state r = Deliverable \<and> score r = 99"
    by simp
  from verifyOneEmail_state_and_score [of unknownUserWorld 0 ?d2]
  obtain t' c' out' t3' k3' smtp' doc' where
    v': "verifyOneEmail unknownUserWorld 0 ?d2 = (t', c', Resolved out')"
    and p': "verifyEmail unknownUserWorld (0 + 6) (check ?d2) ?dns3 = (t3', k3', Resolved smtp')"
    and s': "state doc' = (if exists smtp' then Deliverable else Undeliverable)"
            "score doc' = (if exists smtp' then 99 else 0)"
    and o': "out' = (if createRejects unknownUserWorld k3' doc' = None then Some doc' else None)"
    using b3 i2 by blast
  from p' p3 have "\<not> exists smtp'" by simp
  with s' o' c3 v'
  have 3: "\<exists>t c r. verifyOneEmail unknownUserWorld 0 ?d2 = (t, c, Resolved (Some r)) \<and>
            state r = Undeliverable \<and> score r = 0"
    by simp
  from b1 b2 i2 1 2 3 show ?thesis by simp
qed

text \<open>
  C2. For every address and every DNS result with MX records: when the server answers
  with the lines \<open>220 ok\<close>, \<open>250 ehlo-ok\<close>, \<open>250 starttls-ok\<close>, \<open>250 mail-ok\<close>, \<open>250 rcpt-ok\<close>
  (each delivered with its CRLF), the probe resolves with \<open>exists = true\<close>; with
  \<open>550 no such user\<close> as the last line it resolves with \<open>exists = false\<close>; in both runs the
  lines written are EHLO, STARTTLS, MAIL FROM, RCPT TO, in this order, and then QUIT. When
  the socket delivers no data and no error before the timer fires, the result is
  \<open>success = false\<close> with the message \<open>Connection timeout\<close>.
\<close>

theorem verifyEmail_scripted:
  assumes "hasMxRecord dns" "mxRecords dns \<noteq> []"
  shows "(tlsEvents w clock =
            scripted [''220 ok'', ''250 ehlo-ok'', ''250 starttls-ok'', ''250 mail-ok'', ''250 rcpt-ok'']
          \<longrightarrow> (\<exists>t c r. verifyEmail w clock a dns = (t, c, Resolved r) \<and> exists r \<and> success r \<and>
                 writes t = commands a @ [''QUIT'' @ CRLF]))
       \<and> (tlsEvents w clock =
            scripted [''220 ok'', ''250 ehlo-ok'', ''250 starttls-ok'', ''250 mail-ok'',
                      ''550 no such user'']
          \<longrightarrow> (\<exists>t c r. verifyEmail w clock a dns = (t, c, Resolved r) \<and> \<not> exists r \<and> success r \<and>
                 writes t = commands a @ [''QUIT'' @ CRLF]))
       \<and> ((\<forall>ev \<in> set (tlsEvents w clock). ev = OnConnect \<or> ev = OnTimeout)
          \<longrightarrow> (\<exists>t c. verifyEmail w clock a dns =
                 (t, c, Resolved \<lparr>success = False, exists = False,
                                  message = ''Connection timeout''\<rparr>) \<and> writes t = []))"
proof (intro conjI impI)
  assume "tlsEvents w clock =
            scripted [''220 ok'', ''250 ehlo-ok'', ''250 starttls-ok'', ''250 mail-ok'', ''250 rcpt-ok'']"
  from scripted_accept [OF assms this, of a]
  show "\<exists>t c r. verifyEmail w clock a dns = (t, c, Resolved r) \<and> exists r \<and> success r \<and>
                 writes t = commands a @ [''QUIT'' @ CRLF]"
    by (simp add: closedBy_def writes_map_Write)
next
  assume "tlsEvents w clock =
            scripted [''220 ok'', ''250 ehlo-ok'', ''250 starttls-ok'', ''250 mail-ok'',
                      ''550 no such user'']"
  from scripted_reject [OF assms this, of a]
  show "\<exists>t c r. verifyEmail w clock a dns = (t, c, Resolved r) \<and> \<not> exists r \<and> success r \<and>
                 writes t = commands a @ [''QUIT'' @ CRLF]"
    by (simp add: closedBy_def writes_map_Write)
next
  assume "\<forall>ev \<in> set (tlsEvents w clock). ev = OnConnect \<or> ev = OnTimeout"
  from no_response [OF assms this, of a]
  show "\<exists>t c. verifyEmail w clock a dns =
                 (t, c, Resolved \<lparr>success = False, exists = False,
                                  message = ''Connection timeout''\<rparr>) \<and> writes t = []"
    by (simp add: timedOut_def timeoutResult_def)
qed

theorem verifyEmail_scripted_witness:
  "hasMxRecord exampleDns \<and> mxRecords exampleDns \<noteq> [] \<and>
   (\<exists>t c r. verifyEmail exampleWorld 0 ''bob@example.org'' exampleDns = (t, c, Resolved r) \<and>
        exists r \<and> writes t = commands ''bob@example.org'' @ [''QUIT'' @ CRLF]) \<and>
   (\<exists>t c r. verifyEmail unknownUserWorld 0 ''bob@example.org'' exampleDns = (t, c, Resolved r) \<and>
        \<not> exists r \<and> success r) \<and>
   (\<exists>t c. verifyEmail silentWorld 0 ''bob@example.org'' exampleDns =
        (t, c, Resolved \<lparr>success = False, exists = False, message = ''Connection timeout''\<rparr>))"
proof -
  have h: "hasMxRecord exampleDns" "mxRecords exampleDns \<noteq> []"
    by (simp_all add: exampleDns_def)
  have 1: "tlsEvents exampleWorld 0 =
             scripted [''220 ok'', ''250 ehlo-ok'', ''250 starttls-ok'', ''250 mail-ok'', ''250 rcpt-ok'']"
    by (simp add: exampleWorld_def)
  have 2: "tlsEvents unknownUserWorld 0 =
             scripted [''220 ok'', ''250 ehlo-ok'', ''250 starttls-ok'', ''250 mail-ok'',
                       ''550 no such user'']"
    by (simp add: unknownUserWorld_def)
  have 3: "\<forall>ev \<in> set (tlsEvents silentWorld 0). ev = OnConnect \<or> ev = OnTimeout"
    by (simp add: silentWorld_def)
  show ?thesis
    using h 1 2 3
      verifyEmail_scripted [OF h, of exampleWorld 0 "''bob@example.org''"]
      verifyEmail_scripted [OF h, of unknownUserWorld 0 "''bob@example.org''"]
      verifyEmail_scripted [OF h, of silentWorld 0 "''bob@example.org''"]
    by blast
qed

text \<open>
  C3, as the specification states it, fails: when the store rejects the document, the
  probe has found the mailbox (the document handed to the store is Deliverable, 99), the
  rejection is logged, and \<open>verifyOneEmail\<close> returns nothing.
\<close>

theorem persistence_failure_returns_nothing:
  "snd (snd (verifyOneEmail rejectingWorld 0
              \<lparr>VerifyOneDto.email = ''me@example.org'', check = ''bob@example.org''\<rparr>)) = Resolved None
   \<and> Create \<lparr>email = ''bob@example.org'', score = 99, state = Deliverable, free = Paid, role = No,
             disposable = False, mxHosts = [''mx2.example.org'', ''mx1.example.org''],
             SmtpProvider = ''Unknown'', time = 7\<rparr>
       \<in> set (fst (verifyOneEmail rejectingWorld 0
              \<lparr>VerifyOneDto.email = ''me@example.org'', check = ''bob@example.org''\<rparr>))
   \<and> last (fst (verifyOneEmail rejectingWorld 0
              \<lparr>VerifyOneDto.email = ''me@example.org'', check = ''bob@example.org''\<rparr>)) =
       LoggerError ''E11000 duplicate key error''"
  by code_simp

text \<open>
  C3, amended. \<open>verifyOneEmail\<close> always settles without throwing. For an address with a
  domain part it hands one document, for that address, to the store, as the last thing
  before it returns. When the store rejects this document with an error, the call then
  logs the message of that error and returns \<open>undefined\<close>: no verification record reaches
  the caller. When the store accepts it, the call returns the document. (For an address
  without a domain part nothing is handed to the store and \<open>undefined\<close> is returned.)
\<close>

theorem verifyOneEmail_persistence_failure:
  "\<exists>t k out. verifyOneEmail w clock data = (t, k, Resolved out) \<and>
     (index (split CHR ''@'' (check data)) 1 = None \<longrightarrow> creates t = [] \<and> out = None) \<and>
     (index (split CHR ''@'' (check data)) 1 \<noteq> None \<longrightarrow>
        (\<exists>doc t' k'. k = Suc k' \<and> creates t' = [] \<and> email doc = check data \<and>
           (case createRejects w k' doc of
              Some err \<Rightarrow> t = t' @ [Create doc, LoggerError (messageOf err)] \<and> out = None
            | None \<Rightarrow> t = t' @ [Create doc] \<and> out = Some doc)))"
proof (cases "index (split CHR ''@'' (check data)) 1 = None")
  case True
  show ?thesis
    using verifyOneEmail_no_domain [OF True, of w clock] True
    by (simp add: creates_append)
next
  case False
  let ?a = "check data"
  let ?dns = "snd (snd (verifyEmailDns w clock ?a))"
  have "\<exists>doc t' k'. email doc = ?a \<and> creates t' = [] \<and>
          verifyOneEmail w clock data = createAndReturn w k' t' doc"
  proof (cases "isBlacklisted (blacklist w) ?a")
    case True
    from verifyOneEmail_disposable [OF True, of clock] obtain doc where
      "email doc = ?a"
      "verifyOneEmail w clock data =
         createAndReturn w (clock + 6) (dnsEvents ?a @ dnsEvents ?a) doc"
      by blast
    moreover have "creates (dnsEvents ?a @ dnsEvents ?a) = []"
      by (simp add: creates_append)
    ultimately show ?thesis by blast
  next
    case nb: False
    obtain t3 c3 smtp where
      p: "verifyEmail w (clock + 6) ?a ?dns = (t3, c3, Resolved smtp)"
      using verifyEmail_settles by blast
    have ct: "creates (dnsEvents ?a @ dnsEvents ?a @ t3) = []"
      using creates_verifyEmail [of w "clock + 6" ?a ?dns] p by (simp add: creates_append)
    from verifyOneEmail_probed [OF nb False p] obtain doc where
      "email doc = ?a"
      "verifyOneEmail w clock data =
         createAndReturn w c3 (dnsEvents ?a @ dnsEvents ?a @ t3) doc"
      by blast
    with ct show ?thesis by blast
  qed
  then obtain doc t' k' where
    e: "email doc = ?a" and c: "creates t' = []"
    and v: "verifyOneEmail w clock data = createAndReturn w k' t' doc"
    by blast
  from createAndReturn_cases [of w k' doc t']
  have "\<exists>t out. verifyOneEmail w clock data = (t, Suc k', Resolved out) \<and>
          (case createRejects w k' doc of
              Some err \<Rightarrow> t = t' @ [Create doc, LoggerError (messageOf err)] \<and> out = None
            | None \<Rightarrow> t = t' @ [Create doc] \<and> out = Some doc)"
    using v by auto
  then obtain t out where
    vv: "verifyOneEmail w clock data = (t, Suc k', Resolved out)"
    and cc: "case createRejects w k' doc of
               Some err \<Rightarrow> t = t' @ [Create doc, LoggerError (messageOf err)] \<and> out = None
             | None \<Rightarrow> t = t' @ [Create doc] \<and> out = Some doc"
    by blast
  have inner: "\<exists>doc t' k''. Suc k' = Suc k'' \<and> creates t' = [] \<and> email doc = ?a \<and>
           (case createRejects w k'' doc of
              Some err \<Rightarrow> t = t' @ [Create doc, LoggerError (messageOf err)] \<and> out = None
            | None \<Rightarrow> t = t' @ [Create doc] \<and> out = Some doc)"
    using e c cc by blast
  have "verifyOneEmail w clock data = (t, Suc k', Resolved out) \<and>
     (index (split CHR ''@'' ?a) 1 = None \<longrightarrow> creates t = [] \<and> out = None) \<and>
     (index (split CHR ''@'' ?a) 1 \<noteq> None \<longrightarrow>
        (\<exists>doc t' k''. Suc k' = Suc k'' \<and> creates t' = [] \<and> email doc = ?a \<and>
           (case createRejects w k'' doc of
              Some err \<Rightarrow> t = t' @ [Create doc, LoggerError (messageOf err)] \<and> out = None
            | None \<Rightarrow> t = t' @ [Create doc] \<and> out = Some doc)))"
  proof (intro conjI impI)
    show "verifyOneEmail w clock data = (t, Suc k', Resolved out)" by (rule vv)
  next
    assume "index (split CHR ''@'' ?a) 1 = None"
    with False show "creates t = []" by contradiction
  next
    assume "index (split CHR ''@'' ?a) 1 = None"
    with False show "out = None" by contradiction
  next
    show "\<exists>doc t' k''. Suc k' = Suc k'' \<and> creates t' = [] \<and> email doc = ?a \<and>
           (case createRejects w k'' doc of
              Some err \<Rightarrow> t = t' @ [Create doc, LoggerError (messageOf err)] \<and> out = None
            | None \<Rightarrow> t = t' @ [Create doc] \<and> out = Some doc)"
      by (rule inner)
  qed
  then show ?thesis
    by (intro exI [where x = t] exI [where x = "Suc k'"] exI [where x = out])
qed

theorem verifyOneEmail_persistence_failure_witness:
  "index (split CHR ''@'' ''bob@example.org'') 1 \<noteq> None \<and>
   (\<exists>t' doc k. verifyOneEmail duplicateWorld 0
               \<lparr>VerifyOneDto.email = ''me@example.org'', check = ''bob@example.org''\<rparr> =
             (t' @ [Create doc, LoggerError ''E11000 duplicate key error''], k, Resolved None) \<and>
             email doc = ''bob@example.org'') \<and>
   (\<exists>t' doc k. verifyOneEmail duplicateWorld 0
               \<lparr>VerifyOneDto.email = ''me@example.org'', check = ''alice@example.org''\<rparr> =
             (t' @ [Create doc], k, Resolved (Some doc)) \<and>
             email doc = ''alice@example.org'')"
proof -
  let ?d1 = "\<lparr>VerifyOneDto.email = ''me@example.org'', check = ''bob@example.org''\<rparr>"
  let ?d2 = "\<lparr>VerifyOneDto.email = ''me@example.org'', check = ''alice@example.org''\<rparr>"
  have i1: "index (split CHR ''@'' (check ?d1)) 1 \<noteq> None"
    and i2: "index (split CHR ''@'' (check ?d2)) 1 \<noteq> None"
    by (simp_all add: index_def)
  have r1: "\<And>k doc. email doc = ''bob@example.org'' \<Longrightarrow>
              createRejects duplicateWorld k doc = Some (Error ''E11000 duplicate key error'')"
    by (simp add: duplicateWorld_def)
  have r2: "\<And>k doc. email doc = ''alice@example.org'' \<Longrightarrow>
              createRejects duplicateWorld k doc = None"
    by (simp add: duplicateWorld_def)
  from verifyOneEmail_persistence_failure [of duplicateWorld 0 ?d1] i1
  obtain t k out doc t' k' where
    v: "verifyOneEmail duplicateWorld 0 ?d1 = (t, k, Resolved out)"
    and e: "email doc = check ?d1"
    and c: "case createRejects duplicateWorld k' doc of
              Some err \<Rightarrow> t = t' @ [Create doc, LoggerError (messageOf err)] \<and> out = None
            | None \<Rightarrow> t = t' @ [Create doc] \<and> out = Some doc"
    by blast
  from e r1 [of doc k'] c v
  have 1: "\<exists>t' doc k. verifyOneEmail duplicateWorld 0 ?d1 =
             (t' @ [Create doc, LoggerError ''E11000 duplicate key error''], k, Resolved None) \<and>
             email doc = ''bob@example.org''"
    by auto
  from verifyOneEmail_persistence_failure [of duplicateWorld 0 ?d2] i2
  obtain t2 k2 out2 doc2 t2' k2' where
    v2: "verifyOneEmail duplicateWorld 0 ?d2 = (t2, k2, Resolved out2)"
    and e2: "email doc2 = check ?d2"
    and c2: "case createRejects duplicateWorld k2' doc2 of
              Some err \<Rightarrow> t2 = t2' @ [Create doc2, LoggerError (messageOf err)] \<and> out2 = None
            | None \<Rightarrow> t2 = t2' @ [Create doc2] \<and> out2 = Some doc2"
    by blast
  from e2 r2 [of doc2 k2'] c2 v2
  have 2: "\<exists>t' doc k. verifyOneEmail duplicateWorld 0 ?d2 =
             (t' @ [Create doc], k, Resolved (Some doc)) \<and> email doc = ''alice@example.org''"
    by auto
  from i1 1 2 show ?thesis by simp
qed

text \<open>
  C4, as the specification states it, fails: \<open>verifyEmailDns\<close> hands on the MX records
  in the order the lookup delivered them; with priority 20 delivered before priority 10
  the result is not in ascending order.
\<close>

theorem resolver_keeps_delivery_order:
  "mxRecords (snd (snd (verifyEmailDns exampleWorld 0 ''bob@example.org''))) =
     [\<lparr>exchange = ''mx2.example.org'', priority = 20\<rparr>,
      \<lparr>exchange = ''mx1.example.org'', priority = 10\<rparr>]
   \<and> \<not> sorted (map priority
         (mxRecords (snd (snd (verifyEmailDns exampleWorld 0 ''bob@example.org'')))))"
  by (simp add: verifyEmailDns_def exampleWorld_def Let_def lookupMx_def lookupSpf_def
      lookupDmarc_def index_def)

text \<open>
  C4, amended. \<open>verifyEmailDns\<close> returns the MX records exactly as the lookup delivered
  them. The ascending order by priority is made by the consumer
  \<open>verifyEmailWithDnsResult\<close>, which sorts before it tries the exchanges: the hosts it
  connects to (on port 25) are, in order, an initial part of the records sorted by
  priority, lowest value first.
\<close>

theorem mx_order_is_set_by_the_consumer:
  "(resolveMx w clock (index (split CHR ''@'' address) 1) = Inr mxs \<longrightarrow>
      mxRecords (snd (snd (verifyEmailDns w clock address))) = mxs)
   \<and> (\<exists>tried. prefix tried (sort_key priority (mxRecords dns)) \<and>
         sorted (map priority tried) \<and>
         mset tried \<subseteq># mset (mxRecords dns) \<and>
         connects (fst (verifyEmailWithDnsResult w clock address dns)) =
           map (\<lambda>m. (exchange m, 25)) tried)"
proof
  show "resolveMx w clock (index (split CHR ''@'' address) 1) = Inr mxs \<longrightarrow>
      mxRecords (snd (snd (verifyEmailDns w clock address))) = mxs"
    by (auto simp: verifyEmailDns_def Let_def lookupMx_def lookupSpf_def lookupDmarc_def
        split: sum.splits)
next
  let ?s = "sort_key priority (mxRecords dns)"
  have pre: "\<exists>n. connects (fst (verifyEmailWithDnsResult w clock address dns)) =
               map (\<lambda>m. (exchange m, 25)) (take n ?s)"
  proof (cases "fst (verifyEmailWithDnsResult w clock address dns) = []")
    case True
    then have "connects (fst (verifyEmailWithDnsResult w clock address dns)) =
                 map (\<lambda>m. (exchange m, 25)) (take 0 ?s)" by simp
    then show ?thesis by blast
  next
    case False
    then obtain u d where
      "verifyEmailWithDnsResult w clock address dns = tryExchanges w clock ?s u d"
      by (auto simp: verifyEmailWithDnsResult_def Let_def split: if_splits)
    then show ?thesis using tryExchanges_connects [of w clock ?s u d] by simp
  qed
  then obtain n where n: "connects (fst (verifyEmailWithDnsResult w clock address dns)) =
               map (\<lambda>m. (exchange m, 25)) (take n ?s)" ..
  have "prefix (take n ?s) ?s" by (simp add: take_is_prefix)
  moreover have "sorted (map priority (take n ?s))"
    by (simp add: take_map [symmetric] sorted_wrt_take)
  moreover have "mset (take n ?s) \<subseteq># mset (mxRecords dns)"
  proof -
    have "mset ?s = mset (take n ?s) + mset (drop n ?s)"
      by (metis append_take_drop_id mset_append)
    then have "mset (take n ?s) \<subseteq># mset ?s" by simp
    then show ?thesis by simp
  qed
  ultimately show "\<exists>tried. prefix tried ?s \<and> sorted (map priority tried) \<and>
         mset tried \<subseteq># mset (mxRecords dns) \<and>
         connects (fst (verifyEmailWithDnsResult w clock address dns)) =
           map (\<lambda>m. (exchange m, 25)) tried"
    using n by blast
qed

theorem mx_order_is_set_by_the_consumer_witness:
  "resolveMx exampleWorld 0 (index (split CHR ''@'' ''bob@example.org'') 1) =
     Inr [\<lparr>exchange = ''mx2.example.org'', priority = 20\<rparr>,
          \<lparr>exchange = ''mx1.example.org'', priority = 10\<rparr>] \<and>
   mxRecords (snd (snd (verifyEmailDns exampleWorld 0 ''bob@example.org''))) =
     [\<lparr>exchange = ''mx2.example.org'', priority = 20\<rparr>,
      \<lparr>exchange = ''mx1.example.org'', priority = 10\<rparr>] \<and>
   (\<exists>tried. prefix tried (sort_key priority (mxRecords exampleDns)) \<and>
      connects (fst (verifyEmailWithDnsResult exampleWorld 0 ''bob@example.org'' exampleDns)) =
        map (\<lambda>m. (exchange m, 25)) tried) \<and>
   connects (fst (verifyEmailWithDnsResult exampleWorld 0 ''bob@example.org'' exampleDns)) =
     [(''mx1.example.org'', 25)]"
proof -
  have a: "resolveMx exampleWorld 0 (index (split CHR ''@'' ''bob@example.org'') 1) =
     Inr [\<lparr>exchange = ''mx2.example.org'', priority = 20\<rparr>,
          \<lparr>exchange = ''mx1.example.org'', priority = 10\<rparr>]"
    by (simp add: exampleWorld_def)
  have c: "connects (fst (verifyEmailWithDnsResult exampleWorld 0 ''bob@example.org'' exampleDns)) =
     [(''mx1.example.org'', 25)]"
    by code_simp
  note t = mx_order_is_set_by_the_consumer [of exampleWorld 0 "''bob@example.org''" _ exampleDns]
  from t a have b: "mxRecords (snd (snd (verifyEmailDns exampleWorld 0 ''bob@example.org''))) =
     [\<lparr>exchange = ''mx2.example.org'', priority = 20\<rparr>,
      \<lparr>exchange = ''mx1.example.org'', priority = 10\<rparr>]"
    by blast
  from t have d: "\<exists>tried. prefix tried (sort_key priority (mxRecords exampleDns)) \<and>
      connects (fst (verifyEmailWithDnsResult exampleWorld 0 ''bob@example.org'' exampleDns)) =
        map (\<lambda>m. (exchange m, 25)) tried"
    by blast
  from a b c d show ?thesis by blast
qed

text \<open>
  C5. When exactly one of the three lookups of \<open>verifyEmailDns\<close> (MX, TXT of the
  domain, TXT of \<open>_dmarc.\<close>domain) fails, the function returns its result all the same,
  with exactly one entry in \<open>errors\<close>, naming the failed lookup and carrying its message;
  the flag of the failed lookup is false and its record unset; the fields of the other
  two are those their answers give: \<open>hasMxRecord\<close> is true when records were delivered,
  \<open>hasSPF\<close> and \<open>hasDMARC\<close> say whether a value starts with \<open>v=spf1\<close> or \<open>v=DMARC1\<close>, and
  the first such value is the record.
\<close>

theorem verifyEmailDns_partial_failure:
  assumes mx: "resolveMx w clock (index (split CHR ''@'' address) 1) = a"
    and spf: "resolveTxt w (clock + 1) (index (split CHR ''@'' address) 1) = b"
    and dmarc: "resolveTxt w (clock + 2)
                  (Some (''_dmarc.'' @ interpolate (index (split CHR ''@'' address) 1))) = c"
    and one: "(if isl a then 1 else 0) + (if isl b then 1 else 0) + (if isl c then 1 else 0) = (1::nat)"
  shows "\<exists>t k r. verifyEmailDns w clock address = (t, k, r) \<and> length (errors r) = 1 \<and>
     (case a of
        Inl e \<Rightarrow> \<not> hasMxRecord r \<and> mxRecords r = [] \<and>
                 errors r = [''MX lookup failed: '' @ messageOf e]
      | Inr mxs \<Rightarrow> hasMxRecord r = (mxs \<noteq> []) \<and> mxRecords r = mxs) \<and>
     (case b of
        Inl e \<Rightarrow> \<not> hasSPF r \<and> spfRecord r = None \<and>
                 errors r = [''SPF lookup failed: '' @ messageOf e]
      | Inr txt \<Rightarrow> hasSPF r = (\<exists>x \<in> set (concat txt). startsWith x ''v=spf1'') \<and>
                   (hasSPF r \<longrightarrow> spfRecord r = find (\<lambda>x. startsWith x ''v=spf1'') (concat txt))) \<and>
     (case c of
        Inl e \<Rightarrow> \<not> hasDMARC r \<and> dmarcRecord r = None \<and>
                 errors r = [''DMARC lookup failed: '' @ messageOf e]
      | Inr txt \<Rightarrow> hasDMARC r = (\<exists>x \<in> set (concat txt). startsWith x ''v=DMARC1'') \<and>
                   (hasDMARC r \<longrightarrow>
                      dmarcRecord r = find (\<lambda>x. startsWith x ''v=DMARC1'') (concat txt)))"
proof -
  consider (mx) ea tb tc where "a = Inl ea" "b = Inr tb" "c = Inr tc"
    | (spf) ma eb tc where "a = Inr ma" "b = Inl eb" "c = Inr tc"
    | (dmarc) ma tb ec where "a = Inr ma" "b = Inr tb" "c = Inl ec"
    using one by (cases a; cases b; cases c) simp_all
  then show ?thesis
  proof cases
    case mx
    then show ?thesis
      using assms(1-3)
      by (simp add: verifyEmailDns_def Let_def lookupMx_def lookupSpf_fields lookupDmarc_fields
          del: set_concat)
  next
    case spf
    then show ?thesis
      using assms(1-3)
      by (simp add: verifyEmailDns_def Let_def lookupMx_def lookupSpf_def lookupDmarc_fields
          del: set_concat)
  next
    case dmarc
    then show ?thesis
      using assms(1-3)
      by (simp add: verifyEmailDns_def Let_def lookupMx_def lookupSpf_fields lookupDmarc_def
          del: set_concat)
  qed
qed

theorem verifyEmailDns_partial_failure_witness:
  "((if isl (resolveMx spfFailingWorld 0 (Some ''example.org'')) then 1 else 0) +
    (if isl (resolveTxt spfFailingWorld 1 (Some ''example.org'')) then 1 else 0) +
    (if isl (resolveTxt spfFailingWorld 2 (Some ''_dmarc.example.org'')) then 1 else 0) = (1::nat)) \<and>
   (\<exists>t k r. verifyEmailDns spfFailingWorld 0 ''bob@example.org'' = (t, k, r) \<and>
      hasMxRecord r \<and> \<not> hasSPF r \<and> hasDMARC r \<and>
      errors r = [''SPF lookup failed: queryTxt ETIMEOUT example.org''])"
proof -
  have i: "index (split CHR ''@'' ''bob@example.org'') 1 = Some ''example.org''"
    by (simp add: index_def)
  have a: "resolveMx spfFailingWorld 0 (index (split CHR ''@'' ''bob@example.org'') 1) =
             Inr [\<lparr>exchange = ''mx2.example.org'', priority = 20\<rparr>,
                  \<lparr>exchange = ''mx1.example.org'', priority = 10\<rparr>]"
    by (simp add: spfFailingWorld_def exampleWorld_def)
  have b: "resolveTxt spfFailingWorld (0 + 1) (index (split CHR ''@'' ''bob@example.org'') 1) =
             Inl (Error ''queryTxt ETIMEOUT example.org'')"
    by (simp add: spfFailingWorld_def index_def)
  have c: "resolveTxt spfFailingWorld (0 + 2)
             (Some (''_dmarc.'' @ interpolate (index (split CHR ''@'' ''bob@example.org'') 1))) =
             Inr [[''v=DMARC1; p=none'']]"
    by (simp add: spfFailingWorld_def index_def)
  have one: "(if isl (Inr [\<lparr>exchange = ''mx2.example.org'', priority = 20\<rparr>,
                          \<lparr>exchange = ''mx1.example.org'', priority = 10\<rparr>] :: error + MxRecord list)
              then 1 else 0) +
             (if isl (Inl (Error ''queryTxt ETIMEOUT example.org'') :: error + string list list)
              then 1 else 0) +
             (if isl (Inr [[''v=DMARC1; p=none'']] :: error + string list list) then 1 else 0) = (1::nat)"
    by simp
  have 1: "(if isl (resolveMx spfFailingWorld 0 (Some ''example.org'')) then 1 else 0) +
    (if isl (resolveTxt spfFailingWorld 1 (Some ''example.org'')) then 1 else 0) +
    (if isl (resolveTxt spfFailingWorld 2 (Some ''_dmarc.example.org'')) then 1 else 0) = (1::nat)"
    by (simp add: spfFailingWorld_def exampleWorld_def)
  from verifyEmailDns_partial_failure [OF a b c one]
  have 2: "\<exists>t k r. verifyEmailDns spfFailingWorld 0 ''bob@example.org'' = (t, k, r) \<and>
      hasMxRecord r \<and> \<not> hasSPF r \<and> hasDMARC r \<and>
      errors r = [''SPF lookup failed: queryTxt ETIMEOUT example.org'']"
    by (simp del: split_paired_Ex) blast
  from 1 2 show ?thesis by blast
qed

text \<open>
  C6. For every address and every DNS result with at least one MX record, \<open>verifyEmail\<close>
  opens exactly one connection, to \<open>smtp.office365.com\<close> port 587, whatever the server
  does; the MX records do not enter: any other DNS result with MX records gives the very
  same run.
\<close>

theorem verifyEmail_single_fixed_relay:
  assumes "hasMxRecord dns" "mxRecords dns \<noteq> []"
  shows "connects (fst (verifyEmail w clock a dns)) = [(''smtp.office365.com'', 587)]
       \<and> (hasMxRecord dns' \<and> mxRecords dns' \<noteq> [] \<longrightarrow>
            verifyEmail w clock a dns' = verifyEmail w clock a dns)"
proof -
  have "connects (fst (verifyEmail w clock a dns)) = [(''smtp.office365.com'', 587)]"
    using verifyEmail_ends [OF assms, of w clock a]
    by (auto simp: connects_closedBy connects_timedOut)
  moreover have "hasMxRecord dns' \<and> mxRecords dns' \<noteq> [] \<longrightarrow>
                   verifyEmail w clock a dns' = verifyEmail w clock a dns"
    using assms by (simp add: verifyEmail_def)
  ultimately show ?thesis by blast
qed

theorem verifyEmail_single_fixed_relay_witness:
  "hasMxRecord exampleDns \<and> mxRecords exampleDns \<noteq> [] \<and>
   connects (fst (verifyEmail exampleWorld 0 ''bob@example.org'' exampleDns)) =
     [(''smtp.office365.com'', 587)]"
proof -
  have h: "hasMxRecord exampleDns" "mxRecords exampleDns \<noteq> []"
    by (simp_all add: exampleDns_def)
  show ?thesis
    using h verifyEmail_single_fixed_relay [OF h, of exampleWorld 0 "''bob@example.org''" exampleDns]
    by simp
qed

text \<open>
  C7, as the specification states it, fails: when the store rejects the document of a
  target, the entry of that target in the result is \<open>undefined\<close>, not a record with the
  target's address.
\<close>

theorem verifyManyEmail_undefined_entry:
  "snd (snd (verifyManyEmail rejectingWorld 0
       \<lparr>VerifyManyDto.email = ''me@example.org'', emails = [''bob@example.org''],
        name = ''leads''\<rparr>)) = Resolved [None]"
  by code_simp

text \<open>
  C7, amended. \<open>verifyManyEmail\<close> handles the targets one after the other in the order
  of the input: what it does is what \<open>verifyOneEmail\<close> does for the first target, a sleep
  of 2000 ms, what it does for the second, a sleep, and so on. It returns a list with one
  entry per target, in the same order; the entry is what \<open>verifyOneEmail\<close> returned for
  that target: either a record whose \<open>email\<close> is the target, or \<open>undefined\<close>.
\<close>

theorem verifyManyEmail_sequential:
  "\<exists>clocks c out.
     length clocks = length (emails data) \<and> length out = length (emails data) \<and>
     verifyManyEmail w clock data =
       (rounds w (VerifyManyDto.email data) (zip clocks (emails data)), c, Resolved out) \<and>
     list_all2 (answers w (VerifyManyDto.email data)) (zip clocks (emails data)) out \<and>
     (\<forall>i < length (emails data).
        out ! i = None \<or> (\<exists>r. out ! i = Some r \<and> email r = emails data ! i))"
proof -
  from verifyManyLoop_shape [of "emails data" w clock "VerifyManyDto.email data" "[]"]
  obtain clocks c out where
    l: "length clocks = length (emails data)"
    and v: "verifyManyEmail w clock data =
              (rounds w (VerifyManyDto.email data) (zip clocks (emails data)), c, Resolved out)"
    and a: "list_all2 (answers w (VerifyManyDto.email data)) (zip clocks (emails data)) out"
    by (auto simp: verifyManyEmail_def)
  from a l have lo: "length out = length (emails data)"
    by (auto dest: list_all2_lengthD)
  have "out ! i = None \<or> (\<exists>r. out ! i = Some r \<and> email r = emails data ! i)"
    if "i < length (emails data)" for i
  proof -
    from that l have "answers w (VerifyManyDto.email data) (zip clocks (emails data) ! i) (out ! i)"
      using a by (auto dest: list_all2_nthD)
    with that l show ?thesis
      by (cases "out ! i") (auto simp: answers_def)
  qed
  with l lo v a show ?thesis by blast
qed

theorem verifyManyEmail_sequential_witness:
  "\<exists>c out. snd (verifyManyEmail exampleWorld 0
              \<lparr>VerifyManyDto.email = ''me@example.org'',
               emails = [''bob@example.org'', ''bob''], name = ''leads''\<rparr>) = (c, Resolved out) \<and>
     length out = 2 \<and>
     (out ! 0 = None \<or> (\<exists>r. out ! 0 = Some r \<and> email r = ''bob@example.org''))"
proof -
  let ?d = "\<lparr>VerifyManyDto.email = ''me@example.org'',
              emails = [''bob@example.org'', ''bob''], name = ''leads''\<rparr>"
  from verifyManyEmail_sequential [of ?d exampleWorld 0]
  obtain clocks c out where
    lo: "length out = length (emails ?d)"
    and v: "verifyManyEmail exampleWorld 0 ?d =
              (rounds exampleWorld (VerifyManyDto.email ?d) (zip clocks (emails ?d)), c, Resolved out)"
    and i: "\<forall>i < length (emails ?d).
              out ! i = None \<or> (\<exists>r. out ! i = Some r \<and> email r = emails ?d ! i)"
    by blast
  have z: "(0::nat) < length (emails ?d)" by simp
  from i z have "out ! 0 = None \<or> (\<exists>r. out ! 0 = Some r \<and> email r = emails ?d ! 0)"
    by blast
  then have "out ! 0 = None \<or> (\<exists>r. out ! 0 = Some r \<and> email r = ''bob@example.org'')"
    by simp
  moreover from lo have "length out = 2" by simp
  ultimately show ?thesis using v by simp
qed

text \<open>
  C8. \<open>isRoleEmail\<close> matches a keyword only at a boundary: whatever the address, its
  answer is the rule of the specification (equality, \<open>keyword.\<close> prefix, \<open>.keyword\<close>
  suffix, \<open>.keyword.\<close> inside, hyphen or underscore next to the keyword on either side)
  applied to the lower-cased text before the first \<open>@\<close>. \<open>support\<close> and \<open>support-desk\<close> are
  role mailboxes, \<open>johnsupport\<close> is not; in general a local part without dot, hyphen or
  underscore is a role mailbox only if, lower-cased, it is itself a keyword. Upper and
  lower case make no difference.
\<close>

theorem isRoleEmail_boundary_rules:
  "isRoleEmail address = Inr (isRoleMailbox (takeWhile (\<lambda>c. c \<noteq> CHR ''@'') address))
   \<and> isRoleEmail ''support'' = Inr True
   \<and> isRoleEmail ''support-desk'' = Inr True
   \<and> isRoleEmail ''johnsupport'' = Inr False
   \<and> isRoleEmail ''SUPPORT'' = Inr True
   \<and> isRoleEmail ''Support-Desk'' = Inr True
   \<and> (CHR ''.'' \<notin> set address \<and> CHR ''-'' \<notin> set address \<and> CHR ''_'' \<notin> set address \<and>
      CHR ''@'' \<notin> set address \<and> toLowerCase address \<notin> set roleKeywords
      \<longrightarrow> isRoleEmail address = Inr False)
   \<and> (toLowerCase address = toLowerCase other \<longrightarrow> isRoleEmail address = isRoleEmail other)"
proof -
  have 1: "isRoleEmail ''support'' = Inr True" by code_simp
  have 2: "isRoleEmail ''support-desk'' = Inr True" by code_simp
  have 3: "isRoleEmail ''johnsupport'' = Inr False" by code_simp
  have 4: "isRoleEmail ''SUPPORT'' = Inr True" by code_simp
  have 5: "isRoleEmail ''Support-Desk'' = Inr True" by code_simp
  show ?thesis
    using 1 2 3 4 5 isRoleEmail_isRoleMailbox [of address] isRoleEmail_bare [of address]
      isRoleEmail_case [of address other]
    by simp
qed

theorem isRoleEmail_boundary_rules_witness:
  "CHR ''.'' \<notin> set ''johnsupport'' \<and> CHR ''-'' \<notin> set ''johnsupport'' \<and>
   CHR ''_'' \<notin> set ''johnsupport'' \<and> CHR ''@'' \<notin> set ''johnsupport'' \<and>
   toLowerCase ''johnsupport'' \<notin> set roleKeywords \<and>
   isRoleEmail ''johnsupport'' = Inr False \<and>
   isRoleEmail ''johnsupport'' = Inr (isRoleMailbox ''johnsupport'') \<and>
   toLowerCase ''johnsupport'' = toLowerCase ''JohnSupport'' \<and>
   isRoleEmail ''JohnSupport'' = Inr False"
proof -
  note t = isRoleEmail_boundary_rules [of "''johnsupport''" "''JohnSupport''"]
  have l: "toLowerCase ''johnsupport'' = toLowerCase ''JohnSupport''" by code_simp
  have k: "toLowerCase ''johnsupport'' \<notin> set roleKeywords" by code_simp
  have a: "isRoleEmail ''johnsupport'' = Inr (isRoleMailbox ''johnsupport'')"
    using t by simp
  have b: "isRoleEmail ''johnsupport'' = Inr False"
    using t by blast
  have s: "CHR ''.'' \<notin> set ''johnsupport'' \<and> CHR ''-'' \<notin> set ''johnsupport'' \<and>
           CHR ''_'' \<notin> set ''johnsupport'' \<and> CHR ''@'' \<notin> set ''johnsupport''"
    by simp
  from t l b have c: "isRoleEmail ''JohnSupport'' = Inr False" by simp
  from s k a b l c show ?thesis by blast
qed

text \<open>
  C9, as the specification states it, fails on the timeout path: with a server that
  never answers, the probe destroys the socket and resolves, and no QUIT is written.
\<close>

theorem timeout_without_quit:
  "fst (verifyEmail silentWorld 0 ''bob@example.org'' exampleDns) =
     [Connect ''smtp.office365.com'' 587, Destroy, Resolve timeoutResult]
   \<and> Write (''QUIT'' @ CRLF) \<notin> set (fst (verifyEmail silentWorld 0 ''bob@example.org'' exampleDns))
   \<and> snd (snd (verifyEmail silentWorld 0 ''bob@example.org'' exampleDns)) = Resolved timeoutResult"
  by (simp add: silentWorld_def exampleWorld_def exampleDns_def probe_simps)

text \<open>
  C9, amended. A probe that opened a connection ends in one of two ways. Through
  \<open>closeConnection\<close> (a decision of the protocol or a socket error): the timer is
  cleared, QUIT is written, the socket is destroyed and then the promise is resolved,
  with \<open>success = true\<close>. Through the timer: the socket is destroyed and then the promise
  is resolved with the timeout result, and QUIT is not among the lines written.
\<close>

theorem verifyEmail_teardown:
  assumes "hasMxRecord dns" "mxRecords dns \<noteq> []"
  shows "\<exists>ws. (\<exists>r. success r \<and>
                verifyEmail w clock a dns =
                  (Connect ''smtp.office365.com'' 587 # map Write ws @
                     [ClearTimeout, Write (''QUIT'' @ CRLF), Destroy, Resolve r],
                   clock + 1, Resolved r))
           \<or> (''QUIT'' @ CRLF \<notin> set ws \<and>
               verifyEmail w clock a dns =
                 (Connect ''smtp.office365.com'' 587 # map Write ws @
                    [Destroy, Resolve timeoutResult],
                  clock + 1, Resolved timeoutResult))"
  using verifyEmail_ends [OF assms, of w clock a] quit_not_command [of _ a]
  unfolding closedBy_def timedOut_def by blast

theorem verifyEmail_teardown_witness:
  "hasMxRecord exampleDns \<and> mxRecords exampleDns \<noteq> [] \<and>
   (\<exists>ws. (\<exists>r. success r \<and>
                verifyEmail exampleWorld 0 ''bob@example.org'' exampleDns =
                  (Connect ''smtp.office365.com'' 587 # map Write ws @
                     [ClearTimeout, Write (''QUIT'' @ CRLF), Destroy, Resolve r],
                   0 + 1, Resolved r))
           \<or> (''QUIT'' @ CRLF \<notin> set ws \<and>
               verifyEmail exampleWorld 0 ''bob@example.org'' exampleDns =
                 (Connect ''smtp.office365.com'' 587 # map Write ws @
                    [Destroy, Resolve timeoutResult],
                  0 + 1, Resolved timeoutResult)))"
proof -
  have h: "hasMxRecord exampleDns" "mxRecords exampleDns \<noteq> []"
    by (simp_all add: exampleDns_def)
  show ?thesis
    using h verifyEmail_teardown [OF h, of exampleWorld 0 "''bob@example.org''"]
    by blast
qed

text \<open>
  C10. The classifiers are not total on arbitrary strings: on every string without an
  \<open>@\<close>, \<open>checkFreeOrPaid\<close> throws a TypeError (it reads \<open>toLowerCase\<close> of the undefined
  second piece), while \<open>isBlacklisted\<close> returns false and \<open>isRoleEmail\<close> tests the whole
  string as the local part.
\<close>

theorem classifiers_without_at_sign:
  assumes "CHR ''@'' \<notin> set address"
  shows "checkFreeOrPaid address = Inl (undefinedRead ''toLowerCase'')
       \<and> isBlacklisted bl address = False
       \<and> isRoleEmail address = Inr (some roleKeywords (roleMatch (toLowerCase address)))"
  using assms
  by (simp add: checkFreeOrPaid_def isBlacklisted_def isRoleEmail_def split_no_separator
      index_def arrayIncludes_undefined)

theorem classifiers_without_at_sign_witness:
  "CHR ''@'' \<notin> set ''bob''
   \<and> checkFreeOrPaid ''bob'' = Inl (undefinedRead ''toLowerCase'')
   \<and> isBlacklisted [''bob'', ''mailinator.com''] ''bob'' = False
   \<and> isRoleEmail ''bob'' = Inr (some roleKeywords (roleMatch (toLowerCase ''bob'')))"
proof -
  have h: "CHR ''@'' \<notin> set ''bob''" by simp
  show ?thesis
    using h classifiers_without_at_sign [OF h, of "[''bob'', ''mailinator.com'']"] by simp
qed

end
